theory Spec2Isabelle
  imports Main "HOL-Library.Char_ord" "HOL-Library.List_Lexorder" "HOL-Library.Multiset"
begin

section \<open>Offline synchronisation layer of the to-do application\<close>

text \<open>
  The development embeds \<^verbatim>\<open>client/src/services/storageService.js\<close> (the classes
  \<^verbatim>\<open>StorageService\<close> and \<^verbatim>\<open>SyncService\<close>), the request wrapper of
  \<^verbatim>\<open>apiService.js\<close>, the four calls of \<^verbatim>\<open>taskService.js\<close> that the synchroniser
  uses, and the task routes of \<^verbatim>\<open>server/src/routes/tasks.js\<close> they reach.

  Conventions of the embedding.
  \<^item> An \<^verbatim>\<open>async\<close> method is run to completion: the model is sequential, one call after
    the other. A rejected promise is the \<open>Inl\<close> branch of a sum, a resolved one the
    \<open>Inr\<close> branch. The state is passed explicitly and returned updated, also when the
    call fails.
  \<^item> \<^verbatim>\<open>Date.now()\<close>, \<^verbatim>\<open>new Date()\<close> and \<^verbatim>\<open>Math.random()\<close> are inputs of the call that
    reads them (record \<open>entropy\<close>); one call reads one clock value.
  \<^item> Identifiers are strings; a time stamp is the number of milliseconds that
    \<^verbatim>\<open>new Date(x)\<close> yields, \<open>None\<close> where the property is missing or does not parse
    (JavaScript's \<^verbatim>\<open>NaN\<close>, which compares false with everything).
  \<^item> \<^verbatim>\<open>JSON.parse (JSON.stringify x)\<close> is taken to be \<open>x\<close> on the stored values, so
    \<^verbatim>\<open>localStorage\<close> holds the values themselves.
  \<^item> The React \<^verbatim>\<open>dispatch\<close> sink is outside the model: it does not touch the store, the
    queue or the server.
\<close>

subsection \<open>Values\<close>

datatype json = JNull | JBool bool | JNum int | JStr string
  | JArr "json list" | JObj "(string \<times> json) list"

text \<open>
  A payload is the plain object handed to create or update a task: the editable
  properties (\<^verbatim>\<open>title\<close>, \<^verbatim>\<open>completed\<close>, \<^verbatim>\<open>priority\<close>, ...), in insertion order. It never
  carries \<^verbatim>\<open>_id\<close>, \<^verbatim>\<open>userId\<close>, \<^verbatim>\<open>createdAt\<close>, \<^verbatim>\<open>updatedAt\<close> or \<^verbatim>\<open>isOffline\<close>; those are
  the typed fields of a task.
\<close>

type_synonym payload = "(string \<times> json) list"

text \<open>The object spread \<^verbatim>\<open>{...a, ...b}\<close> on payloads: a key of \<open>b\<close> overwrites in place or
  is appended.\<close>

fun assign :: "string \<Rightarrow> json \<Rightarrow> payload \<Rightarrow> payload" where
  "assign k v [] = [(k, v)]"
| "assign k v ((k', v') # ps) = (if k = k' then (k, v) # ps else (k', v') # assign k v ps)"

fun spread :: "payload \<Rightarrow> payload \<Rightarrow> payload" where
  "spread a [] = a"
| "spread a ((k, v) # b) = spread (assign k v a) b"

text \<open>An identifier-valued property or variable: a string, \<^verbatim>\<open>null\<close> (the initial
  \<^verbatim>\<open>this.userId\<close>) or \<^verbatim>\<open>undefined\<close> (a property that the object does not have).
  Equality of the datatype is \<^verbatim>\<open>===\<close>.\<close>

datatype ident = Undefined | Null | Id string

text \<open>
  A task object as the client sees it. \<open>task_id\<close> is the property \<^verbatim>\<open>_id\<close>. A time
  stamp that is missing is \<open>None\<close>; a missing \<^verbatim>\<open>isOffline\<close> is falsy, \<open>False\<close>.
\<close>

record task =
  task_id :: ident
  userId :: ident
  createdAt :: "nat option"
  updatedAt :: "nat option"
  isOffline :: bool
  props :: payload

datatype optype = CREATE | UPDATE | DELETE

fun type_name :: "optype \<Rightarrow> string" where
  "type_name CREATE = ''CREATE''"
| "type_name UPDATE = ''UPDATE''"
| "type_name DELETE = ''DELETE''"

text \<open>The object passed to \<^verbatim>\<open>addToSyncQueue\<close>, and the queued item, which adds
  \<^verbatim>\<open>timestamp\<close> and \<^verbatim>\<open>id\<close>. A \<^verbatim>\<open>DELETE\<close> has no \<^verbatim>\<open>data\<close>; nothing reads it, it is \<open>[]\<close>.\<close>

record operation =
  op_type :: optype
  taskId :: string
  data :: payload

record syncItem = operation +
  timestamp :: nat
  item_id :: string

record entropy =
  now :: nat
  random :: string

datatype error = Error string | TypeError | DataError | ConstraintError

text \<open>Decimal rendering of a number inside a template literal.\<close>

definition digit :: "nat \<Rightarrow> char" where
  "digit n = ''0123456789'' ! (n mod 10)"

fun dec :: "nat \<Rightarrow> string" where
  "dec n = (if n < 10 then [digit n] else dec (n div 10) @ [digit (n mod 10)])"

declare dec.simps [simp del]

text \<open>\<^verbatim>\<open>s.startsWith(p)\<close>\<close>

definition startsWith :: "string \<Rightarrow> string \<Rightarrow> bool" where
  "startsWith s p = (take (length p) s = p)"

text \<open>JavaScript truthiness of an identifier (\<^verbatim>\<open>!this.userId\<close>,
  \<^verbatim>\<open>operation.taskId || ...\<close>): the empty string is falsy too.\<close>

fun truthy :: "ident \<Rightarrow> bool" where
  "truthy (Id s) = (s \<noteq> [])"
| "truthy Null = False"
| "truthy Undefined = False"

text \<open>The text that a template literal renders for an identifier.\<close>

fun template :: "ident \<Rightarrow> string" where
  "template (Id s) = s"
| "template Null = ''null''"
| "template Undefined = ''undefined''"

subsection \<open>IndexedDB object stores\<close>

text \<open>
  An object store is kept as the list of its records in ascending key order, which is
  the order in which \<^verbatim>\<open>getAll()\<close> returns them. Keys are strings, compared code unit by
  code unit (the lexicographic order on \<open>string\<close>).
\<close>

type_synonym 'v objectStore = "(string \<times> 'v) list"

fun os_put :: "string \<Rightarrow> 'v \<Rightarrow> 'v objectStore \<Rightarrow> 'v objectStore" where
  "os_put k v [] = [(k, v)]"
| "os_put k v ((k', v') # xs) =
     (if k = k' then (k, v) # xs
      else if k < k' then (k, v) # (k', v') # xs
      else (k', v') # os_put k v xs)"

text \<open>\<^verbatim>\<open>add\<close> rejects a key that is already in the store.\<close>

definition os_add :: "string \<Rightarrow> 'v \<Rightarrow> 'v objectStore \<Rightarrow> error + 'v objectStore" where
  "os_add k v xs = (if k \<in> set (map fst xs) then Inl ConstraintError else Inr (os_put k v xs))"

definition os_delete :: "string \<Rightarrow> 'v objectStore \<Rightarrow> 'v objectStore" where
  "os_delete k xs = filter (\<lambda>kv. fst kv \<noteq> k) xs"

definition os_getAll :: "'v objectStore \<Rightarrow> 'v list" where
  "os_getAll xs = map snd xs"

subsection \<open>StorageService\<close>

text \<open>
  \<open>db_open\<close> says that \<^verbatim>\<open>this.db\<close> is the open database; \<open>idb_available\<close> is the
  environment: whether \<^verbatim>\<open>openDB\<close> succeeds. \<open>idb_tasks\<close> and \<open>idb_queue\<close> are the object
  stores \<^verbatim>\<open>tasks\<close> (key path \<^verbatim>\<open>_id\<close>) and \<^verbatim>\<open>sync_queue\<close> (key path \<^verbatim>\<open>id\<close>).
  \<open>ls_tasks\<close> holds the \<^verbatim>\<open>localStorage\<close> entries \<^verbatim>\<open>tasks_<userId>\<close>, keyed by the text
  after \<^verbatim>\<open>tasks_\<close>; \<open>ls_queue\<close> is the entry \<^verbatim>\<open>sync_queue\<close>.
\<close>

record storage =
  useLocalStorage :: bool
  db_open :: bool
  idb_available :: bool
  idb_tasks :: "task objectStore"
  idb_queue :: "syncItem objectStore"
  ls_tasks :: "(string \<times> task list) list"
  ls_queue :: "syncItem list option"

text \<open>\<^verbatim>\<open>init\<close>: open the database, or fall back to \<^verbatim>\<open>localStorage\<close>.\<close>

definition init :: "storage \<Rightarrow> storage" where
  "init s = (if idb_available s then s\<lparr>db_open := True\<rparr> else s\<lparr>useLocalStorage := True\<rparr>)"

text \<open>The two lines \<^verbatim>\<open>if (!this.db) await this.init()\<close> and \<^verbatim>\<open>this.db.transaction(...)\<close>:
  with \<^verbatim>\<open>this.db\<close> still \<^verbatim>\<open>null\<close> after \<^verbatim>\<open>init\<close>, the property access throws.\<close>

definition transaction :: "storage \<Rightarrow> (error + unit) \<times> storage" where
  "transaction s =
     (let s' = (if db_open s then s else init s)
      in if db_open s' then (Inr (), s') else (Inl TypeError, s'))"

definition ls_get :: "(string \<times> 'v) list \<Rightarrow> string \<Rightarrow> 'v option" where
  "ls_get m k = map_of m k"

fun ls_set :: "string \<Rightarrow> 'v \<Rightarrow> (string \<times> 'v) list \<Rightarrow> (string \<times> 'v) list" where
  "ls_set k v [] = [(k, v)]"
| "ls_set k v ((k', v') # m) = (if k = k' then (k, v) # m else (k', v') # ls_set k v m)"

text \<open>\<^verbatim>\<open>index.getAll(query)\<close> on the index \<^verbatim>\<open>userId\<close> of the tasks store: the index holds
  the records whose \<^verbatim>\<open>userId\<close> is a valid key, a string; a string query selects the
  records with that key, \<^verbatim>\<open>null\<close> or \<^verbatim>\<open>undefined\<close> selects the whole index. The result is
  in primary-key order within one index key.\<close>

fun index_getAll :: "ident \<Rightarrow> task objectStore \<Rightarrow> task list" where
  "index_getAll (Id u) xs = filter (\<lambda>t. userId t = Id u) (os_getAll xs)"
| "index_getAll Null xs = sort_key (\<lambda>t. template (userId t))
     (filter (\<lambda>t. case userId t of Id u \<Rightarrow> True | _ \<Rightarrow> False) (os_getAll xs))"
| "index_getAll Undefined xs = sort_key (\<lambda>t. template (userId t))
     (filter (\<lambda>t. case userId t of Id u \<Rightarrow> True | _ \<Rightarrow> False) (os_getAll xs))"

text \<open>\<^verbatim>\<open>getTasks(userId)\<close>\<close>

definition getTasks :: "ident \<Rightarrow> storage \<Rightarrow> (error + task list) \<times> storage" where
  "getTasks uid s =
     (if useLocalStorage s then
        (case ls_get (ls_tasks s) (template uid) of
           Some tasks \<Rightarrow> (Inr tasks, s)
         | None \<Rightarrow> (Inr [], s))
      else
        (case transaction s of
           (Inl e, s') \<Rightarrow> (Inl e, s')
         | (Inr _, s') \<Rightarrow> (Inr (index_getAll uid (idb_tasks s')), s')))"

text \<open>\<^verbatim>\<open>tasks.findIndex(p)\<close>, with \<open>None\<close> for \<^verbatim>\<open>-1\<close>.\<close>

fun findIndex :: "('a \<Rightarrow> bool) \<Rightarrow> 'a list \<Rightarrow> nat option" where
  "findIndex p [] = None"
| "findIndex p (x # xs) =
     (if p x then Some 0 else (case findIndex p xs of None \<Rightarrow> None | Some i \<Rightarrow> Some (Suc i)))"

text \<open>The block of \<^verbatim>\<open>saveTask\<close> that replaces the task at \<^verbatim>\<open>existingIndex\<close> or pushes it.\<close>

definition upsert :: "task \<Rightarrow> task list \<Rightarrow> task list" where
  "upsert t tasks =
     (case findIndex (\<lambda>x. task_id x = task_id t) tasks of
        Some existingIndex \<Rightarrow> tasks[existingIndex := t]
      | None \<Rightarrow> tasks @ [t])"

text \<open>\<^verbatim>\<open>saveTask(task)\<close>. A \<^verbatim>\<open>put\<close> of a value without \<^verbatim>\<open>_id\<close> into the store keyed by
  \<^verbatim>\<open>_id\<close> is a \<^verbatim>\<open>DataError\<close>.\<close>

definition saveTask :: "task \<Rightarrow> storage \<Rightarrow> (error + unit) \<times> storage" where
  "saveTask t s =
     (if useLocalStorage s then
        (case getTasks (userId t) s of
           (Inl e, s') \<Rightarrow> (Inl e, s')
         | (Inr tasks, s') \<Rightarrow>
             (Inr (), s'\<lparr>ls_tasks := ls_set (template (userId t)) (upsert t tasks) (ls_tasks s')\<rparr>))
      else
        (case transaction s of
           (Inl e, s') \<Rightarrow> (Inl e, s')
         | (Inr _, s') \<Rightarrow>
             (case task_id t of
                Id k \<Rightarrow> (Inr (), s'\<lparr>idb_tasks := os_put k t (idb_tasks s')\<rparr>)
              | _ \<Rightarrow> (Inl DataError, s'))))"

text \<open>\<^verbatim>\<open>deleteTask(taskId, userId)\<close>\<close>

definition deleteTask :: "string \<Rightarrow> ident \<Rightarrow> storage \<Rightarrow> (error + unit) \<times> storage" where
  "deleteTask tid uid s =
     (if useLocalStorage s then
        (case getTasks uid s of
           (Inl e, s') \<Rightarrow> (Inl e, s')
         | (Inr tasks, s') \<Rightarrow>
             (let filteredTasks = filter (\<lambda>t. task_id t \<noteq> Id tid) tasks
              in (Inr (), s'\<lparr>ls_tasks := ls_set (template uid) filteredTasks (ls_tasks s')\<rparr>)))
      else
        (case transaction s of
           (Inl e, s') \<Rightarrow> (Inl e, s')
         | (Inr _, s') \<Rightarrow> (Inr (), s'\<lparr>idb_tasks := os_delete tid (idb_tasks s')\<rparr>)))"

text \<open>\<^verbatim>\<open>getSyncQueue()\<close>, awaited.\<close>

definition getSyncQueue :: "storage \<Rightarrow> (error + syncItem list) \<times> storage" where
  "getSyncQueue s =
     (if useLocalStorage s then
        (case ls_queue s of Some queue \<Rightarrow> (Inr queue, s) | None \<Rightarrow> (Inr [], s))
      else
        (case transaction s of
           (Inl e, s') \<Rightarrow> (Inl e, s')
         | (Inr _, s') \<Rightarrow> (Inr (os_getAll (idb_queue s')), s')))"

text \<open>
  A value on which the source calls an array method. It is an array, or an object that
  is no array: the promise that a call of an \<^verbatim>\<open>async\<close> method evaluates to when it is
  not awaited, or a response body that is a plain object. On such an object
  \<^verbatim>\<open>push\<close> and \<^verbatim>\<open>filter\<close> are \<^verbatim>\<open>undefined\<close>, and calling them is a \<^verbatim>\<open>TypeError\<close>.
\<close>

datatype ('o, 'a) jsvalue = Object 'o | Array "'a list"

fun array_push :: "('o, 'a) jsvalue \<Rightarrow> 'a \<Rightarrow> error + 'a list" where
  "array_push (Array xs) x = Inr (xs @ [x])"
| "array_push (Object p) x = Inl TypeError"

fun array_filter :: "('a \<Rightarrow> bool) \<Rightarrow> ('o, 'a) jsvalue \<Rightarrow> error + 'a list" where
  "array_filter f (Array xs) = Inr (filter f xs)"
| "array_filter f (Object p) = Inl TypeError"

text \<open>The id of a queued item:
  \<^verbatim>\<open>`${operation.type}_${operation.taskId || Date.now()}_${Math.random()}`\<close>\<close>

definition syncItem_id :: "operation \<Rightarrow> entropy \<Rightarrow> string" where
  "syncItem_id operation e =
     type_name (op_type operation) @ ''_''
       @ (if truthy (Id (taskId operation)) then taskId operation else dec (now e))
       @ ''_'' @ random e"

definition make_syncItem :: "operation \<Rightarrow> entropy \<Rightarrow> syncItem" where
  "make_syncItem operation e =
     \<lparr>op_type = op_type operation, taskId = taskId operation, data = data operation,
      timestamp = now e, item_id = syncItem_id operation e\<rparr>"

text \<open>\<^verbatim>\<open>addToSyncQueue(operation)\<close>. In the fallback branch the source reads
  \<^verbatim>\<open>const queue = this.getSyncQueue()\<close> with no \<^verbatim>\<open>await\<close>, so \<open>queue\<close> is the promise of the call, not the array.\<close>

definition addToSyncQueue :: "operation \<Rightarrow> entropy \<Rightarrow> storage \<Rightarrow> (error + unit) \<times> storage" where
  "addToSyncQueue operation e s =
     (let syncItem = make_syncItem operation e
      in if useLocalStorage s then
           (let queue = Object (getSyncQueue s)
            in case array_push queue syncItem of
                 Inl err \<Rightarrow> (Inl err, s)
               | Inr queue' \<Rightarrow> (Inr (), s\<lparr>ls_queue := Some queue'\<rparr>))
         else
           (case transaction s of
              (Inl err, s') \<Rightarrow> (Inl err, s')
            | (Inr _, s') \<Rightarrow>
                (case os_add (item_id syncItem) syncItem (idb_queue s') of
                   Inl err \<Rightarrow> (Inl err, s')
                 | Inr q \<Rightarrow> (Inr (), s'\<lparr>idb_queue := q\<rparr>))))"

text \<open>\<^verbatim>\<open>removeFromSyncQueue(id)\<close>, with the same un-awaited call in the fallback branch.\<close>

definition removeFromSyncQueue :: "string \<Rightarrow> storage \<Rightarrow> (error + unit) \<times> storage" where
  "removeFromSyncQueue i s =
     (if useLocalStorage s then
        (let queue = Object (getSyncQueue s)
         in case array_filter (\<lambda>item. item_id item \<noteq> i) queue of
              Inl err \<Rightarrow> (Inl err, s)
            | Inr filteredQueue \<Rightarrow> (Inr (), s\<lparr>ls_queue := Some filteredQueue\<rparr>))
      else
        (case transaction s of
           (Inl err, s') \<Rightarrow> (Inl err, s')
         | (Inr _, s') \<Rightarrow> (Inr (), s'\<lparr>idb_queue := os_delete i (idb_queue s')\<rparr>)))"

subsection \<open>The remote task gateway, as the synchroniser calls it\<close>

text \<open>
  \<^verbatim>\<open>taskService\<close> is a parameter of the synchroniser: four calls on a remote state \<open>'g\<close>,
  each of which may reject (an \<^verbatim>\<open>Error\<close> thrown by \<^verbatim>\<open>apiService.request\<close>) and may change the
  remote state. What \<^verbatim>\<open>getTasks\<close> resolves to is an array of tasks or some other object.
  The concrete gateway of this repository is \<open>taskService\<close> below.
\<close>

record 'g gateway =
  ts_getTasks :: "'g \<Rightarrow> (error + (task, task) jsvalue) \<times> 'g"
  ts_createTask :: "payload \<Rightarrow> 'g \<Rightarrow> (error + task) \<times> 'g"
  ts_updateTask :: "string \<Rightarrow> payload \<Rightarrow> 'g \<Rightarrow> (error + task) \<times> 'g"
  ts_deleteTask :: "string \<Rightarrow> 'g \<Rightarrow> (error + unit) \<times> 'g"

subsection \<open>SyncService\<close>

text \<open>The three \<^verbatim>\<open>console.error\<close> calls of the synchroniser, as a log.\<close>

datatype logEntry =
    FailedToSyncOperation syncItem error
  | SyncFailed error
  | FailedToSyncFromServer error

record 'g world =
  storageService :: storage
  isOnline :: bool
  this_userId :: ident
  syncInProgress :: bool
  console :: "logEntry list"
  remote :: 'g

text \<open>A call of a \<^verbatim>\<open>storageService\<close> method from the synchroniser.\<close>

definition on_storage ::
  "(storage \<Rightarrow> (error + 'a) \<times> storage) \<Rightarrow> ('g, 'z) world_scheme \<Rightarrow> (error + 'a) \<times> ('g, 'z) world_scheme" where
  "on_storage f w = (case f (storageService w) of (r, s') \<Rightarrow> (r, w\<lparr>storageService := s'\<rparr>))"

text \<open>\<^verbatim>\<open>getOfflineTasks()\<close>\<close>

definition getOfflineTasks :: "'g world \<Rightarrow> (error + task list) \<times> 'g world" where
  "getOfflineTasks w =
     (if \<not> truthy (this_userId w) then (Inr [], w)
      else on_storage (getTasks (this_userId w)) w)"

text \<open>\<^verbatim>\<open>createOfflineTask(taskData)\<close>; \<open>e\<close> is read for the task, \<open>e'\<close> for the queued item.\<close>

definition offline_id :: "entropy \<Rightarrow> string" where
  "offline_id e = ''offline_'' @ dec (now e) @ ''_'' @ random e"

definition createOfflineTask ::
  "payload \<Rightarrow> entropy \<Rightarrow> entropy \<Rightarrow> 'g world \<Rightarrow> (error + task) \<times> 'g world" where
  "createOfflineTask taskData e e' w =
     (let offlineTask = \<lparr>task_id = Id (offline_id e), userId = this_userId w,
                          createdAt = Some (now e), updatedAt = Some (now e),
                          isOffline = True, props = taskData\<rparr>
      in case on_storage (saveTask offlineTask) w of
           (Inl err, w1) \<Rightarrow> (Inl err, w1)
         | (Inr _, w1) \<Rightarrow>
             (case on_storage (addToSyncQueue
                     \<lparr>op_type = CREATE, taskId = offline_id e, data = taskData\<rparr> e') w1 of
                (Inl err, w2) \<Rightarrow> (Inl err, w2)
              | (Inr _, w2) \<Rightarrow> (Inr offlineTask, w2)))"

text \<open>\<^verbatim>\<open>updateOfflineTask(taskId, updates)\<close>\<close>

definition updateOfflineTask ::
  "string \<Rightarrow> payload \<Rightarrow> entropy \<Rightarrow> entropy \<Rightarrow> 'g world \<Rightarrow> (error + task) \<times> 'g world" where
  "updateOfflineTask tid updates e e' w =
     (case getOfflineTasks w of
        (Inl err, w1) \<Rightarrow> (Inl err, w1)
      | (Inr tasks, w1) \<Rightarrow>
          (case find (\<lambda>t. task_id t = Id tid) tasks of
             Some task \<Rightarrow>
               (let updatedTask = task\<lparr>props := spread (props task) updates,
                                        updatedAt := Some (now e)\<rparr>
                in case on_storage (saveTask updatedTask) w1 of
                     (Inl err, w2) \<Rightarrow> (Inl err, w2)
                   | (Inr _, w2) \<Rightarrow>
                       (case on_storage (addToSyncQueue
                               \<lparr>op_type = UPDATE, taskId = tid, data = updates\<rparr> e') w2 of
                          (Inl err, w3) \<Rightarrow> (Inl err, w3)
                        | (Inr _, w3) \<Rightarrow> (Inr updatedTask, w3)))
           | None \<Rightarrow> (Inl (Error ''Task not found''), w1)))"

text \<open>\<^verbatim>\<open>deleteOfflineTask(taskId)\<close>\<close>

definition deleteOfflineTask :: "string \<Rightarrow> entropy \<Rightarrow> 'g world \<Rightarrow> (error + unit) \<times> 'g world" where
  "deleteOfflineTask tid e' w =
     (case on_storage (deleteTask tid (this_userId w)) w of
        (Inl err, w1) \<Rightarrow> (Inl err, w1)
      | (Inr _, w1) \<Rightarrow>
          on_storage (addToSyncQueue \<lparr>op_type = DELETE, taskId = tid, data = []\<rparr> e') w1)"

text \<open>A call of a \<^verbatim>\<open>taskService\<close> method.\<close>

definition on_remote ::
  "('g \<Rightarrow> (error + 'a) \<times> 'g) \<Rightarrow> 'g world \<Rightarrow> (error + 'a) \<times> 'g world" where
  "on_remote f w = (case f (remote w) of (r, g') \<Rightarrow> (r, w\<lparr>remote := g'\<rparr>))"

text \<open>\<^verbatim>\<open>processOperation(operation)\<close>\<close>

definition processOperation :: "'g gateway \<Rightarrow> syncItem \<Rightarrow> 'g world \<Rightarrow> (error + unit) \<times> 'g world" where
  "processOperation gw operation w =
     (case op_type operation of
        CREATE \<Rightarrow>
          (case on_remote (ts_createTask gw (data operation)) w of
             (Inl err, w1) \<Rightarrow> (Inl err, w1)
           | (Inr newTask, w1) \<Rightarrow>
               (case on_storage (deleteTask (taskId operation) (this_userId w1)) w1 of
                  (Inl err, w2) \<Rightarrow> (Inl err, w2)
                | (Inr _, w2) \<Rightarrow> on_storage (saveTask newTask) w2))
      | UPDATE \<Rightarrow>
          (case getOfflineTasks w of
             (Inl err, w1) \<Rightarrow> (Inl err, w1)
           | (Inr localTasks, w1) \<Rightarrow>
               (case find (\<lambda>t. task_id t = Id (taskId operation)) localTasks of
                  Some localTask \<Rightarrow>
                    (case task_id localTask of
                       Id i \<Rightarrow>
                         (if \<not> startsWith i ''offline_'' then
                            (case on_remote (ts_updateTask gw (taskId operation) (data operation)) w1 of
                               (Inl err, w2) \<Rightarrow> (Inl err, w2)
                             | (Inr updatedTask, w2) \<Rightarrow> on_storage (saveTask updatedTask) w2)
                          else (Inr (), w1))
                     | _ \<Rightarrow> (Inl TypeError, w1))
                | None \<Rightarrow> (Inr (), w1)))
      | DELETE \<Rightarrow>
          (if \<not> startsWith (taskId operation) ''offline_''
           then on_remote (ts_deleteTask gw (taskId operation)) w
           else (Inr (), w)))"

text \<open>The loop of \<^verbatim>\<open>syncFromServer\<close> that saves the new and the updated tasks; the first
  rejected \<^verbatim>\<open>saveTask\<close> leaves the loop.\<close>

fun saveAll :: "task list \<Rightarrow> storage \<Rightarrow> (error + unit) \<times> storage" where
  "saveAll [] s = (Inr (), s)"
| "saveAll (t # ts) s =
     (case saveTask t s of
        (Inl err, s') \<Rightarrow> (Inl err, s')
      | (Inr _, s') \<Rightarrow> saveAll ts s')"

text \<open>\<^verbatim>\<open>new Date(a) > new Date(b)\<close>\<close>

fun newer :: "nat option \<Rightarrow> nat option \<Rightarrow> bool" where
  "newer (Some a) (Some b) = (a > b)"
| "newer _ _ = False"

definition log :: "logEntry \<Rightarrow> 'g world \<Rightarrow> 'g world" where
  "log entry w = w\<lparr>console := console w @ [entry]\<rparr>"

text \<open>\<^verbatim>\<open>syncFromServer()\<close>: every rejection inside is caught and logged.\<close>

definition syncFromServer :: "'g gateway \<Rightarrow> 'g world \<Rightarrow> 'g world" where
  "syncFromServer gw w =
     (case on_remote (ts_getTasks gw) w of
        (Inl err, w1) \<Rightarrow> log (FailedToSyncFromServer err) w1
      | (Inr serverTasks, w1) \<Rightarrow>
          (case getOfflineTasks w1 of
             (Inl err, w2) \<Rightarrow> log (FailedToSyncFromServer err) w2
           | (Inr localTasks, w2) \<Rightarrow>
               (case array_filter (\<lambda>serverTask.
                        \<not> list_ex (\<lambda>localTask. task_id localTask = task_id serverTask) localTasks)
                      serverTasks of
                  Inl err \<Rightarrow> log (FailedToSyncFromServer err) w2
                | Inr newTasks \<Rightarrow>
                    (case array_filter (\<lambda>serverTask.
                             case find (\<lambda>lt. task_id lt = task_id serverTask) localTasks of
                               Some localTask \<Rightarrow> newer (updatedAt serverTask) (updatedAt localTask)
                             | None \<Rightarrow> False)
                           serverTasks of
                       Inl err \<Rightarrow> log (FailedToSyncFromServer err) w2
                     | Inr updatedTasks \<Rightarrow>
                         (case on_storage (saveAll (newTasks @ updatedTasks)) w2 of
                            (Inl err, w3) \<Rightarrow> log (FailedToSyncFromServer err) w3
                          | (Inr _, w3) \<Rightarrow> w3)))))"

text \<open>
  A pass is an \<^verbatim>\<open>async\<close> method: wherever it awaits, the other handlers of the event
  loop may run before it goes on: the timer, the listeners of the window, a second call
  of \<^verbatim>\<open>syncPendingChanges\<close>. The pass is therefore defined with a parameter \<open>others\<close>,
  what those handlers do to the world each time the pass has awaited a step of its own:
  the queue read, an operation processed, an operation removed, the reconciliation. The
  method run alone is the pass with handlers that do nothing.
\<close>

text \<open>One turn of the loop of \<^verbatim>\<open>syncPendingChanges\<close>: the \<^verbatim>\<open>try\<close> with its \<^verbatim>\<open>catch\<close>.\<close>

definition syncOne_at ::
  "('g world \<Rightarrow> 'g world) \<Rightarrow> 'g gateway \<Rightarrow> syncItem \<Rightarrow> 'g world \<Rightarrow> 'g world" where
  "syncOne_at others gw operation w =
     (case processOperation gw operation w of
        (Inl err, w1) \<Rightarrow> log (FailedToSyncOperation operation err) (others w1)
      | (Inr _, w1) \<Rightarrow>
          (case on_storage (removeFromSyncQueue (item_id operation)) (others w1) of
             (Inl err, w2) \<Rightarrow> log (FailedToSyncOperation operation err) (others w2)
           | (Inr _, w2) \<Rightarrow> others w2))"

fun drain_at ::
  "('g world \<Rightarrow> 'g world) \<Rightarrow> 'g gateway \<Rightarrow> syncItem list \<Rightarrow> 'g world \<Rightarrow> 'g world" where
  "drain_at others gw [] w = w"
| "drain_at others gw (operation # syncQueue) w =
     drain_at others gw syncQueue (syncOne_at others gw operation w)"

text \<open>\<^verbatim>\<open>syncPendingChanges()\<close>\<close>

definition syncPendingChanges_at ::
  "('g world \<Rightarrow> 'g world) \<Rightarrow> 'g gateway \<Rightarrow> 'g world \<Rightarrow> 'g world" where
  "syncPendingChanges_at others gw w =
     (if \<not> isOnline w \<or> syncInProgress w \<or> \<not> truthy (this_userId w) then w
      else
        (let w0 = w\<lparr>syncInProgress := True\<rparr>;
             w' = (case on_storage getSyncQueue w0 of
                     (Inl err, w1) \<Rightarrow> log (SyncFailed err) (others w1)
                   | (Inr syncQueue, w1) \<Rightarrow>
                       others (syncFromServer gw (drain_at others gw syncQueue (others w1))))
         in w'\<lparr>syncInProgress := False\<rparr>))"

text \<open>The turn, the loop and the method run alone.\<close>

definition syncOne :: "'g gateway \<Rightarrow> syncItem \<Rightarrow> 'g world \<Rightarrow> 'g world" where
  "syncOne gw operation w = syncOne_at (\<lambda>w. w) gw operation w"

definition drain :: "'g gateway \<Rightarrow> syncItem list \<Rightarrow> 'g world \<Rightarrow> 'g world" where
  "drain gw syncQueue w = drain_at (\<lambda>w. w) gw syncQueue w"

definition syncPendingChanges :: "'g gateway \<Rightarrow> 'g world \<Rightarrow> 'g world" where
  "syncPendingChanges gw w = syncPendingChanges_at (\<lambda>w. w) gw w"

subsection \<open>The server: the task routes\<close>

text \<open>
  The routes \<^verbatim>\<open>GET /\<close>, \<^verbatim>\<open>POST /\<close>, \<^verbatim>\<open>PUT /:id\<close> and \<^verbatim>\<open>DELETE /:id\<close> of
  \<^verbatim>\<open>server/src/routes/tasks.js\<close> on the documents of the \<^verbatim>\<open>Task\<close> collection. A request
  is taken to carry a valid token (\<open>req_user\<close> is \<^verbatim>\<open>req.user._id\<close>) and a body that passes
  the validation middleware. \<open>objectIds\<close> are the identifiers that the database assigns
  to the next documents, \<open>clock\<close> is the server's time; with no identifier left the
  insertion throws, which stands for any failure of the database.
\<close>

record doc =
  doc_id :: string
  doc_userId :: string
  doc_createdAt :: nat
  doc_updatedAt :: nat
  doc_props :: payload

record server =
  collection :: "doc list"
  objectIds :: "string list"
  clock :: nat
  req_user :: string

text \<open>The defaults of the schema in \<^verbatim>\<open>models/Task.js\<close>.\<close>

definition schema_defaults :: payload where
  "schema_defaults =
     [(''completed'', JBool False), (''priority'', JStr ''medium''),
      (''category'', JStr ''short-term''), (''frequency'', JStr ''once''), (''tags'', JArr [])]"

text \<open>A string that casts to an ObjectId: 24 hexadecimal digits. Any other \<^verbatim>\<open>:id\<close> makes
  the query throw a cast error.\<close>

definition hexdigit :: "char \<Rightarrow> bool" where
  "hexdigit c = (c \<in> set ''0123456789abcdefABCDEF'')"

definition castable :: "string \<Rightarrow> bool" where
  "castable i = (length i = 24 \<and> list_all hexdigit i)"

datatype body =
    TaskBody doc
  | TasksBody "doc list" nat
  | MessageBody bool string

record response =
  status :: nat
  body :: body

datatype request = GET_tasks | POST_tasks payload | PUT_task string payload | DELETE_task string

text \<open>\<^verbatim>\<open>router.get('/')\<close> with no query parameter: the user's documents, newest first, at
  most 50, and their total number.\<close>

definition route_get :: "server \<Rightarrow> response \<times> server" where
  "route_get srv =
     (let mine = filter (\<lambda>d. doc_userId d = req_user srv) (collection srv);
          tasks = take 50 (rev (sort_key doc_createdAt mine))
      in (\<lparr>status = 200, body = TasksBody tasks (length mine)\<rparr>, srv))"

definition route_post :: "payload \<Rightarrow> server \<Rightarrow> response \<times> server" where
  "route_post reqBody srv =
     (case objectIds srv of
        [] \<Rightarrow> (\<lparr>status = 500, body = MessageBody False ''Server error while creating task''\<rparr>, srv)
      | i # ids \<Rightarrow>
          (let task = \<lparr>doc_id = i, doc_userId = req_user srv, doc_createdAt = clock srv,
                       doc_updatedAt = clock srv, doc_props = spread schema_defaults reqBody\<rparr>
           in (\<lparr>status = 201, body = TaskBody task\<rparr>,
               srv\<lparr>collection := collection srv @ [task], objectIds := ids\<rparr>)))"

definition route_put :: "string \<Rightarrow> payload \<Rightarrow> server \<Rightarrow> response \<times> server" where
  "route_put i reqBody srv =
     (if \<not> castable i
      then (\<lparr>status = 500, body = MessageBody False ''Server error while updating task''\<rparr>, srv)
      else
        (case find (\<lambda>d. doc_id d = i \<and> doc_userId d = req_user srv) (collection srv) of
           None \<Rightarrow> (\<lparr>status = 404, body = MessageBody False ''Task not found''\<rparr>, srv)
         | Some d \<Rightarrow>
             (let task = d\<lparr>doc_props := spread (doc_props d) reqBody, doc_updatedAt := clock srv\<rparr>
              in (\<lparr>status = 200, body = TaskBody task\<rparr>,
                  srv\<lparr>collection := map (\<lambda>x. if doc_id x = i then task else x) (collection srv)\<rparr>))))"

definition route_delete :: "string \<Rightarrow> server \<Rightarrow> response \<times> server" where
  "route_delete i srv =
     (if \<not> castable i
      then (\<lparr>status = 500, body = MessageBody False ''Server error while deleting task''\<rparr>, srv)
      else
        (case find (\<lambda>d. doc_id d = i \<and> doc_userId d = req_user srv) (collection srv) of
           None \<Rightarrow> (\<lparr>status = 404, body = MessageBody False ''Task not found''\<rparr>, srv)
         | Some d \<Rightarrow>
             (\<lparr>status = 200, body = MessageBody True ''Task deleted successfully''\<rparr>,
              srv\<lparr>collection := filter (\<lambda>x. doc_id x \<noteq> i) (collection srv)\<rparr>)))"

fun route :: "request \<Rightarrow> server \<Rightarrow> response \<times> server" where
  "route GET_tasks srv = route_get srv"
| "route (POST_tasks reqBody) srv = route_post reqBody srv"
| "route (PUT_task i reqBody) srv = route_put i reqBody srv"
| "route (DELETE_task i) srv = route_delete i srv"

subsection \<open>ApiService and TaskService\<close>

text \<open>
  The far side of \<^verbatim>\<open>fetch\<close>: the server, the requests sent so far, and for the coming
  requests whether they reach the server (\<open>link\<close>; past its end they do).
\<close>

record remoteState =
  server :: server
  link :: "bool list"
  requests :: "request list"

definition fetch :: "request \<Rightarrow> remoteState \<Rightarrow> (error + response) \<times> remoteState" where
  "fetch rq r =
     (let reached = (case link r of [] \<Rightarrow> True | up # _ \<Rightarrow> up);
          r1 = r\<lparr>link := drop 1 (link r), requests := requests r @ [rq]\<rparr>
      in if reached
         then (case route rq (server r1) of (resp, srv') \<Rightarrow> (Inr resp, r1\<lparr>server := srv'\<rparr>))
         else (Inl TypeError, r1))"

text \<open>\<^verbatim>\<open>errorData.message || `HTTP error! status: ${response.status}`\<close>\<close>

fun error_message :: "response \<Rightarrow> string" where
  "error_message resp =
     (case body resp of
        MessageBody ok m \<Rightarrow> (if m \<noteq> [] then m else ''HTTP error! status: '' @ dec (status resp))
      | _ \<Rightarrow> ''HTTP error! status: '' @ dec (status resp))"

text \<open>\<^verbatim>\<open>apiService.request\<close>: the \<^verbatim>\<open>TypeError\<close> of a failed \<^verbatim>\<open>fetch\<close> is rethrown as the
  network error, a status outside 200..299 as an \<^verbatim>\<open>Error\<close> with the message of the body.
  Every response of the routes is JSON, so the parsed body is returned.\<close>

definition request :: "request \<Rightarrow> remoteState \<Rightarrow> (error + body) \<times> remoteState" where
  "request rq r =
     (case fetch rq r of
        (Inl err, r') \<Rightarrow> (Inl (Error ''Network error. Please check your connection.''), r')
      | (Inr resp, r') \<Rightarrow>
          (if \<not> (200 \<le> status resp \<and> status resp \<le> 299)
           then (Inl (Error (error_message resp)), r')
           else (Inr (body resp), r')))"

text \<open>
  A response body as the object the client holds. The synchroniser reads the properties
  \<^verbatim>\<open>_id\<close>, \<^verbatim>\<open>userId\<close> and \<^verbatim>\<open>updatedAt\<close> of it; the bodies of the routes are envelopes
  \<^verbatim>\<open>{success, task}\<close>, \<^verbatim>\<open>{success, tasks, pagination}\<close> and \<^verbatim>\<open>{success, message}\<close>, which
  have none of the three. (Of a document, the properties that Mongoose adds on its own,
  \<^verbatim>\<open>__v\<close> and the virtuals, are left out.)
\<close>

definition json_of_doc :: "doc \<Rightarrow> json" where
  "json_of_doc d =
     JObj ((''_id'', JStr (doc_id d)) # doc_props d @
           [(''userId'', JStr (doc_userId d)), (''createdAt'', JNum (int (doc_createdAt d))),
            (''updatedAt'', JNum (int (doc_updatedAt d)))])"

definition envelope :: "payload \<Rightarrow> task" where
  "envelope ps = \<lparr>task_id = Undefined, userId = Undefined, createdAt = None, updatedAt = None,
                   isOffline = False, props = ps\<rparr>"

fun object_of_body :: "body \<Rightarrow> task" where
  "object_of_body (TaskBody d) = envelope [(''success'', JBool True), (''task'', json_of_doc d)]"
| "object_of_body (TasksBody ds n) =
     envelope [(''success'', JBool True), (''tasks'', JArr (map json_of_doc ds)),
               (''pagination'', JObj [(''page'', JNum 1), (''limit'', JNum 50),
                  (''total'', JNum (int n)), (''pages'', JNum (int ((n + 49) div 50)))])]"
| "object_of_body (MessageBody ok m) = envelope [(''success'', JBool ok), (''message'', JStr m)]"

text \<open>\<^verbatim>\<open>taskService\<close>: \<^verbatim>\<open>getTasks()\<close>, \<^verbatim>\<open>createTask\<close>, \<^verbatim>\<open>updateTask\<close>, \<^verbatim>\<open>deleteTask\<close>.\<close>

definition returning :: "('a \<Rightarrow> 'b) \<Rightarrow> (error + 'a) \<times> 's \<Rightarrow> (error + 'b) \<times> 's" where
  "returning f x = (case x of (Inl err, s) \<Rightarrow> (Inl err, s) | (Inr v, s) \<Rightarrow> (Inr (f v), s))"

definition taskService :: "remoteState gateway" where
  "taskService =
     \<lparr>ts_getTasks = (\<lambda>r. returning (\<lambda>b. Object (object_of_body b)) (request GET_tasks r)),
      ts_createTask = (\<lambda>taskData r. returning object_of_body (request (POST_tasks taskData) r)),
      ts_updateTask = (\<lambda>i updates r. returning object_of_body (request (PUT_task i updates) r)),
      ts_deleteTask = (\<lambda>i r. returning (\<lambda>b. ()) (request (DELETE_task i) r))\<rparr>"

subsection \<open>The triggers of a pass\<close>

text \<open>The two listeners that the constructor of \<^verbatim>\<open>SyncService\<close> registers, and the
  callback of the timer that \<^verbatim>\<open>init\<close> starts.\<close>

definition timer_tick :: "'g gateway \<Rightarrow> 'g world \<Rightarrow> 'g world" where
  "timer_tick gw w = (if isOnline w \<and> \<not> syncInProgress w then syncPendingChanges gw w else w)"

definition online_event :: "'g gateway \<Rightarrow> 'g world \<Rightarrow> 'g world" where
  "online_event gw w = syncPendingChanges gw (w\<lparr>isOnline := True\<rparr>)"

definition offline_event :: "'g world \<Rightarrow> 'g world" where
  "offline_event w = w\<lparr>isOnline := False\<rparr>"

section \<open>Notions used by the statements\<close>

text \<open>The storage service is past its start: it is on the fallback path, or it holds
  the open database, or it can open it at the next call.\<close>

definition initialised :: "storage \<Rightarrow> bool" where
  "initialised s = (useLocalStorage s \<or> db_open s \<or> idb_available s)"

text \<open>Example values for the closed statements: a storage service on the IndexedDB path
  and one on the fallback path, both empty.\<close>

definition idb_storage :: storage where
  "idb_storage = \<lparr>useLocalStorage = False, db_open = True, idb_available = True,
     idb_tasks = [], idb_queue = [], ls_tasks = [], ls_queue = None\<rparr>"

definition fallback_storage :: storage where
  "fallback_storage = \<lparr>useLocalStorage = True, db_open = False, idb_available = False,
     idb_tasks = [], idb_queue = [], ls_tasks = [], ls_queue = None\<rparr>"

definition update_a :: operation where
  "update_a = \<lparr>op_type = UPDATE, taskId = ''64b000000000000000000001'',
     data = [(''title'', JStr ''b'')]\<rparr>"

definition delete_a :: operation where
  "delete_a = \<lparr>op_type = DELETE, taskId = ''64b000000000000000000001'', data = []\<rparr>"

text \<open>The task records that the store holds, on the path in use.\<close>

definition stored_tasks :: "storage \<Rightarrow> task list" where
  "stored_tasks s =
     (if useLocalStorage s then concat (map snd (ls_tasks s)) else os_getAll (idb_tasks s))"

text \<open>The records of the store that carry a given \<^verbatim>\<open>_id\<close>.\<close>

definition records_with :: "ident \<Rightarrow> storage \<Rightarrow> task list" where
  "records_with i s = filter (\<lambda>t. task_id t = i) (stored_tasks s)"

text \<open>The object store of the tasks as IndexedDB keeps it: in strictly ascending key
  order, every record under its own \<^verbatim>\<open>_id\<close>.\<close>

definition idb_keyed :: "storage \<Rightarrow> bool" where
  "idb_keyed s =
     (sorted_wrt (<) (map fst (idb_tasks s)) \<and>
      list_all (\<lambda>kv. task_id (snd kv) = Id (fst kv)) (idb_tasks s))"

text \<open>No list \<^verbatim>\<open>tasks_<userId>\<close> of \<^verbatim>\<open>localStorage\<close> repeats an \<^verbatim>\<open>_id\<close>. This says
  nothing of two lists: the same \<^verbatim>\<open>_id\<close> may stand in the lists of two users.\<close>

definition ls_lists_distinct :: "storage \<Rightarrow> bool" where
  "ls_lists_distinct s = list_all (\<lambda>ut. distinct (map task_id (snd ut))) (ls_tasks s)"

text \<open>The storage service at its start, the database not yet open, in a browser in
  which \<^verbatim>\<open>openDB\<close> rejects.\<close>

definition startup_storage :: storage where
  "startup_storage = \<lparr>useLocalStorage = False, db_open = False, idb_available = False,
     idb_tasks = [], idb_queue = [], ls_tasks = [], ls_queue = None\<rparr>"

text \<open>The user's local tasks: what \<^verbatim>\<open>getTasks\<close> reads on the path in use.\<close>

definition local_tasks :: "ident \<Rightarrow> storage \<Rightarrow> task list" where
  "local_tasks uid s =
     (if useLocalStorage s
      then (case ls_get (ls_tasks s) (template uid) of Some tasks \<Rightarrow> tasks | None \<Rightarrow> [])
      else index_getAll uid (idb_tasks s))"

text \<open>Example worlds for the closed statements, against the gateway of the repository:
  user \<^verbatim>\<open>u1\<close>, online, the server reachable and holding no task.\<close>

definition server0 :: server where
  "server0 = \<lparr>collection = [],
     objectIds = [''64b000000000000000000001'', ''64b000000000000000000002''],
     clock = 100, req_user = ''u1''\<rparr>"

definition world0 :: "remoteState world" where
  "world0 = \<lparr>storageService = idb_storage, isOnline = True, this_userId = Id ''u1'',
     syncInProgress = False, console = [],
     remote = \<lparr>server = server0, link = [], requests = []\<rparr>\<rparr>"

definition task_a :: task where
  "task_a = \<lparr>task_id = Id ''64b000000000000000000001'', userId = Id ''u1'',
     createdAt = Some 100, updatedAt = Some 100, isOffline = False,
     props = [(''title'', JStr ''a'')]\<rparr>"

text \<open>The same world with \<open>task_a\<close>, a task confirmed by the server, in the local store.\<close>

definition world_a :: "remoteState world" where
  "world_a = world0\<lparr>storageService :=
     idb_storage\<lparr>idb_tasks := [(''64b000000000000000000001'', task_a)]\<rparr>\<rparr>"

text \<open>The same user with a storage service at its start that cannot open the database.\<close>

definition world_startup :: "remoteState world" where
  "world_startup = world0\<lparr>storageService := startup_storage\<rparr>"

text \<open>The persisted queue, on both paths.\<close>

definition queue_of :: "storage \<Rightarrow> syncItem objectStore \<times> syncItem list option" where
  "queue_of s = (idb_queue s, ls_queue s)"

text \<open>The storage service holds the open database: the IndexedDB path proper.\<close>

definition on_idb :: "storage \<Rightarrow> bool" where
  "on_idb s = (\<not> useLocalStorage s \<and> db_open s)"

text \<open>A step that leaves the queue, the console and the flags of the synchroniser as
  they are, and keeps a storage service on the path it is on.\<close>

definition pass_frame :: "'g world \<Rightarrow> 'g world \<Rightarrow> bool" where
  "pass_frame w w' =
     (queue_of (storageService w') = queue_of (storageService w) \<and>
      (if on_idb (storageService w) then on_idb (storageService w') else True) \<and>
      (if useLocalStorage (storageService w) then useLocalStorage (storageService w') else True) \<and>
      console w' = console w \<and> isOnline w' = isOnline w \<and>
      this_userId w' = this_userId w \<and> syncInProgress w' = syncInProgress w)"

text \<open>An update that the drain sends to the gateway: the storage service is on one of
  its paths, a user is set, and the user's local tasks hold the target under a
  confirmed id.\<close>

definition sends_update :: "syncItem \<Rightarrow> 'g world \<Rightarrow> bool" where
  "sends_update operation w =
     (op_type operation = UPDATE \<and> truthy (this_userId w) \<and>
      (useLocalStorage (storageService w) \<or> db_open (storageService w)) \<and>
      list_ex (\<lambda>t. task_id t = Id (taskId operation))
        (local_tasks (this_userId w) (storageService w)) \<and>
      \<not> startsWith (taskId operation) ''offline_'')"

text \<open>A delete that the drain sends to the gateway.\<close>

definition sends_delete :: "syncItem \<Rightarrow> bool" where
  "sends_delete operation =
     (op_type operation = DELETE \<and> \<not> startsWith (taskId operation) ''offline_'')"

text \<open>The operations that a stretch of the console reports as failed.\<close>

fun failed_operations :: "logEntry list \<Rightarrow> syncItem list" where
  "failed_operations [] = []"
| "failed_operations (FailedToSyncOperation operation err # entries)
     = operation # failed_operations entries"
| "failed_operations (entry # entries) = failed_operations entries"

text \<open>
  The dispatches of a drain, told by their outcome. The loop hands each operation of
  the list to \<^verbatim>\<open>processOperation\<close>, in the world that the turns before have left.
  \<open>drain_failures\<close> are the console entries of the operations whose dispatch throws,
  \<open>drain_successes\<close> the operations whose dispatch returns.
\<close>

fun drain_failures :: "'g gateway \<Rightarrow> syncItem list \<Rightarrow> 'g world \<Rightarrow> logEntry list" where
  "drain_failures gw [] w = []"
| "drain_failures gw (operation # syncQueue) w =
     (case fst (processOperation gw operation w) of
        Inl err \<Rightarrow> [FailedToSyncOperation operation err]
      | Inr u \<Rightarrow> [])
     @ drain_failures gw syncQueue (syncOne gw operation w)"

fun drain_successes :: "'g gateway \<Rightarrow> syncItem list \<Rightarrow> 'g world \<Rightarrow> syncItem list" where
  "drain_successes gw [] w = []"
| "drain_successes gw (operation # syncQueue) w =
     (case fst (processOperation gw operation w) of
        Inl err \<Rightarrow> []
      | Inr u \<Rightarrow> [operation])
     @ drain_successes gw syncQueue (syncOne gw operation w)"

text \<open>The entries of an object store under one key.\<close>

definition entries_of :: "string \<Rightarrow> 'v objectStore \<Rightarrow> 'v objectStore" where
  "entries_of k xs = filter (\<lambda>kv. fst kv = k) xs"

text \<open>What a pass adds to the console.\<close>

definition added_log :: "'g world \<Rightarrow> 'g world \<Rightarrow> logEntry list" where
  "added_log w w' = drop (length (console w)) (console w')"

text \<open>Queued items for the examples: the delete and the update of the confirmed task
  \<open>task_a\<close>, and the delete of a second confirmed task.\<close>

definition delete_item :: syncItem where
  "delete_item = make_syncItem delete_a \<lparr>now = 6, random = ''0.25''\<rparr>"

definition update_item :: syncItem where
  "update_item = make_syncItem update_a \<lparr>now = 5, random = ''0.5''\<rparr>"

definition delete_item2 :: syncItem where
  "delete_item2 = make_syncItem
     \<lparr>op_type = DELETE, taskId = ''64b000000000000000000002'', data = []\<rparr>
     \<lparr>now = 7, random = ''0.75''\<rparr>"

text \<open>Worlds with queued operations on confirmed tasks. In \<open>world_delete\<close> the server
  does not know the task of the queued delete. In \<open>world_two_deletes\<close> the server holds
  the two tasks to delete, and of the coming requests the first does not reach it.\<close>

definition world_delete :: "remoteState world" where
  "world_delete = world0\<lparr>storageService :=
     idb_storage\<lparr>idb_queue := [(item_id delete_item, delete_item)]\<rparr>\<rparr>"

definition doc_a :: doc where
  "doc_a = \<lparr>doc_id = ''64b000000000000000000001'', doc_userId = ''u1'', doc_createdAt = 50,
     doc_updatedAt = 50, doc_props = [(''title'', JStr ''a'')]\<rparr>"

definition doc_b :: doc where
  "doc_b = \<lparr>doc_id = ''64b000000000000000000002'', doc_userId = ''u1'', doc_createdAt = 60,
     doc_updatedAt = 60, doc_props = [(''title'', JStr ''b'')]\<rparr>"

definition world_two_deletes :: "remoteState world" where
  "world_two_deletes = world0
     \<lparr>storageService := idb_storage\<lparr>idb_queue :=
        [(item_id delete_item, delete_item), (item_id delete_item2, delete_item2)]\<rparr>,
      remote := \<lparr>server = server0\<lparr>collection := [doc_a, doc_b], objectIds := []\<rparr>,
                  link = [False, True], requests = []\<rparr>\<rparr>"

text \<open>A task created and then deleted while offline: the two queued items, and the
  world after the two calls.\<close>

definition queued_create :: "payload \<Rightarrow> entropy \<Rightarrow> entropy \<Rightarrow> syncItem" where
  "queued_create taskData e e' =
     make_syncItem \<lparr>op_type = CREATE, taskId = offline_id e, data = taskData\<rparr> e'"

definition queued_delete :: "entropy \<Rightarrow> entropy \<Rightarrow> syncItem" where
  "queued_delete e e'' =
     make_syncItem \<lparr>op_type = DELETE, taskId = offline_id e, data = []\<rparr> e''"

definition create_then_delete ::
  "payload \<Rightarrow> entropy \<Rightarrow> entropy \<Rightarrow> entropy \<Rightarrow> 'g world \<Rightarrow> 'g world" where
  "create_then_delete taskData e e' e'' w =
     snd (deleteOfflineTask (offline_id e) e'' (snd (createOfflineTask taskData e e' w)))"

text \<open>The world of the two queued deletes with the connection lost for good, and the
  same queue on the fallback path.\<close>

definition world_two_deletes_down :: "remoteState world" where
  "world_two_deletes_down = world_two_deletes
     \<lparr>remote := \<lparr>server = server0\<lparr>collection := [doc_a, doc_b], objectIds := []\<rparr>,
                  link = [False, False, False], requests = []\<rparr>\<rparr>"

definition world_two_deletes_fallback :: "remoteState world" where
  "world_two_deletes_fallback = world_two_deletes
     \<lparr>storageService := fallback_storage\<lparr>ls_queue := Some [delete_item, delete_item2]\<rparr>\<rparr>"

text \<open>A task with the title \<^verbatim>\<open>a\<close> created and then deleted through the
  offline layer while the connection is down, and the first user on the fallback path.\<close>

definition created_then_deleted :: "'g world \<Rightarrow> 'g world" where
  "created_then_deleted w =
     create_then_delete [(''title'', JStr ''a'')] \<lparr>now = 1, random = ''0.1''\<rparr>
       \<lparr>now = 2, random = ''0.2''\<rparr> \<lparr>now = 3, random = ''0.3''\<rparr> (offline_event w)"

definition world_fallback :: "remoteState world" where
  "world_fallback = world0\<lparr>storageService := fallback_storage\<rparr>"

text \<open>The server ahead of the client: it holds a later version of \<open>task_a\<close> and a
  task that the client has never seen.\<close>

definition doc_a_newer :: doc where
  "doc_a_newer = doc_a\<lparr>doc_updatedAt := 200, doc_props := [(''title'', JStr ''c'')]\<rparr>"

definition world_behind :: "remoteState world" where
  "world_behind = world_a
     \<lparr>remote := \<lparr>server = server0\<lparr>collection := [doc_a_newer, doc_b], objectIds := []\<rparr>,
                  link = [], requests = []\<rparr>\<rparr>"

text \<open>One mutation of the task list, as \<^verbatim>\<open>TaskContext\<close> carries it out: its
  \<^verbatim>\<open>createTask\<close>, \<^verbatim>\<open>updateTask\<close> and \<^verbatim>\<open>deleteTask\<close> call the gateway
  (\<open>apply_online\<close>, the remote state after the call) and, when that call is rejected, the
  offline layer (\<open>apply_offline\<close>).\<close>

datatype mutation = Create payload | Update string payload | Delete string

fun apply_online :: "'g gateway \<Rightarrow> mutation \<Rightarrow> 'g \<Rightarrow> 'g" where
  "apply_online gw (Create taskData) r = snd (ts_createTask gw taskData r)"
| "apply_online gw (Update tid updates) r = snd (ts_updateTask gw tid updates r)"
| "apply_online gw (Delete tid) r = snd (ts_deleteTask gw tid r)"

fun apply_offline :: "mutation \<Rightarrow> entropy \<Rightarrow> entropy \<Rightarrow> 'g world \<Rightarrow> 'g world" where
  "apply_offline (Create taskData) e e' w = snd (createOfflineTask taskData e e' w)"
| "apply_offline (Update tid updates) e e' w = snd (updateOfflineTask tid updates e e' w)"
| "apply_offline (Delete tid) e e' w = snd (deleteOfflineTask tid e' w)"

text \<open>The mutations that a pass sends to the gateway: every create; an update or a delete
  of a task whose id is not a temporary one, the update only if the user's local tasks
  hold the task.\<close>

fun replayed :: "ident \<Rightarrow> storage \<Rightarrow> mutation \<Rightarrow> bool" where
  "replayed uid s (Create taskData) = True"
| "replayed uid s (Update tid updates) =
     (\<not> startsWith tid ''offline_'' \<and> Id tid \<in> task_id ` set (local_tasks uid s))"
| "replayed uid s (Delete tid) = (\<not> startsWith tid ''offline_'')"

section \<open>The operation queue\<close>

subsection \<open>Enqueueing on the fallback path\<close>

text \<open>
  C8. On the fallback path \<^verbatim>\<open>addToSyncQueue\<close> does not complete: the un-awaited
  \<^verbatim>\<open>getSyncQueue()\<close> is a promise, \<^verbatim>\<open>queue.push\<close> throws a \<^verbatim>\<open>TypeError\<close>, and the persisted
  queue stays as it was, without the new operation. \<^verbatim>\<open>removeFromSyncQueue\<close> throws in the
  same way and removes nothing. Evaluated here on the empty fallback storage.
\<close>

theorem fallback_enqueue_throws:
  "addToSyncQueue update_a \<lparr>now = 5, random = ''0.5''\<rparr> fallback_storage
     = (Inl TypeError, fallback_storage) \<and>
   removeFromSyncQueue ''UPDATE_64b000000000000000000001_0.5''
       (fallback_storage\<lparr>ls_queue := Some [make_syncItem update_a \<lparr>now = 5, random = ''0.5''\<rparr>]\<rparr>)
     = (Inl TypeError,
        fallback_storage\<lparr>ls_queue := Some [make_syncItem update_a \<lparr>now = 5, random = ''0.5''\<rparr>]\<rparr>)"
  by (simp add: addToSyncQueue_def removeFromSyncQueue_def fallback_storage_def)

text \<open>The same for every operation and every storage on the fallback path.\<close>

lemma addToSyncQueue_fallback:
  "useLocalStorage s \<Longrightarrow> addToSyncQueue operation e s = (Inl TypeError, s)"
  by (simp add: addToSyncQueue_def)

lemma removeFromSyncQueue_fallback:
  "useLocalStorage s \<Longrightarrow> removeFromSyncQueue i s = (Inl TypeError, s)"
  by (simp add: removeFromSyncQueue_def)

subsection \<open>The order of the queue\<close>

text \<open>
  C3. The queue is listed in the order of the keys of the object store, and a key is
  the text \<^verbatim>\<open>type_taskId_random\<close>. An update of a task enqueued first and a delete of the
  same task enqueued second are listed, and so drained, delete first.
\<close>

theorem getSyncQueue_lists_in_key_order:
  "fst (getSyncQueue
         (snd (addToSyncQueue delete_a \<lparr>now = 6, random = ''0.25''\<rparr>
           (snd (addToSyncQueue update_a \<lparr>now = 5, random = ''0.5''\<rparr> idb_storage)))))
   = Inr [make_syncItem delete_a \<lparr>now = 6, random = ''0.25''\<rparr>,
          make_syncItem update_a \<lparr>now = 5, random = ''0.5''\<rparr>]"
  by (simp add: idb_storage_def update_a_def delete_a_def addToSyncQueue_def getSyncQueue_def
      transaction_def os_add_def make_syncItem_def syncItem_id_def os_getAll_def)


section \<open>The local store\<close>

subsection \<open>Object stores\<close>

lemma os_put_idem: "os_put k v (os_put k v xs) = os_put k v xs"
  by (induction xs) auto

lemma set_os_put: "fst ` set (os_put k v xs) = insert k (fst ` set xs)"
proof (induction xs)
  case Nil
  show ?case by simp
next
  case (Cons a xs)
  obtain k' v' where a: "a = (k', v')" by (cases a)
  show ?case using Cons.IH by (simp add: a insert_commute)
qed

lemma os_put_mem: "(k, v) \<in> set (os_put k v xs)"
  by (induction xs) auto

lemma os_put_sorted:
  "sorted_wrt (<) (map fst xs) \<Longrightarrow> sorted_wrt (<) (map fst (os_put k v xs))"
proof (induction xs)
  case Nil
  then show ?case by simp
next
  case (Cons a xs)
  obtain k' v' where a: "a = (k', v')" by (cases a)
  show ?case
  proof (cases "k = k'")
    case True
    with Cons.prems a show ?thesis by simp
  next
    case False
    show ?thesis
    proof (cases "k < k'")
      case True
      with Cons.prems a False show ?thesis by (auto intro: less_trans)
    next
      case ge: False
      with False have "k' < k" by simp
      moreover have "fst ` set (os_put k v xs) = insert k (fst ` set xs)"
        by (rule set_os_put)
      ultimately show ?thesis using Cons a False ge by auto
    qed
  qed
qed

lemma os_put_keys:
  "list_all (\<lambda>kv. task_id (snd kv) = Id (fst kv)) xs \<Longrightarrow> task_id v = Id k \<Longrightarrow>
   list_all (\<lambda>kv. task_id (snd kv) = Id (fst kv)) (os_put k v xs)"
  by (induction xs) auto

subsection \<open>Lists in localStorage\<close>

lemma ls_set_idem: "ls_set k v (ls_set k v m) = ls_set k v m"
  by (induction m) auto

lemma ls_get_set: "ls_get (ls_set k v m) k = Some v"
  by (induction m) (auto simp: ls_get_def)

lemma ls_set_mem: "(k, v) \<in> set (ls_set k v m)"
  by (induction m) auto

lemma ls_set_all: "list_all P m \<Longrightarrow> P (k, v) \<Longrightarrow> list_all P (ls_set k v m)"
  by (induction m) auto

lemma ls_get_all: "list_all P m \<Longrightarrow> ls_get m k = Some v \<Longrightarrow> P (k, v)"
  by (induction m) (auto simp: ls_get_def split: if_splits)

lemma findIndex_None: "findIndex p xs = None \<longleftrightarrow> (\<forall>x\<in>set xs. \<not> p x)"
  by (induction xs) (auto split: option.splits)

lemma findIndex_Some:
  "findIndex p xs = Some i \<Longrightarrow> i < length xs \<and> p (xs ! i)"
  by (induction xs arbitrary: i) (auto split: option.splits if_splits)

lemma findIndex_append_new:
  "\<forall>x\<in>set xs. \<not> p x \<Longrightarrow> p y \<Longrightarrow> findIndex p (xs @ [y]) = Some (length xs)"
  by (induction xs) auto

lemma findIndex_update: "findIndex p xs = Some i \<Longrightarrow> p y \<Longrightarrow> findIndex p (xs[i := y]) = Some i"
  by (induction xs arbitrary: i) (auto split: option.splits if_splits)

lemma upsert_idem: "upsert t (upsert t tasks) = upsert t tasks"
proof (cases "findIndex (\<lambda>x. task_id x = task_id t) tasks")
  case None
  then have "\<forall>x\<in>set tasks. \<not> task_id x = task_id t" by (simp add: findIndex_None)
  then have "findIndex (\<lambda>x. task_id x = task_id t) (tasks @ [t]) = Some (length tasks)"
    by (rule findIndex_append_new) simp
  with None show ?thesis by (simp add: upsert_def)
next
  case (Some i)
  then have "findIndex (\<lambda>x. task_id x = task_id t) (tasks[i := t]) = Some i"
    by (rule findIndex_update) simp
  with Some show ?thesis by (simp add: upsert_def)
qed

lemma upsert_mem: "t \<in> set (upsert t tasks)"
proof (cases "findIndex (\<lambda>x. task_id x = task_id t) tasks")
  case None
  then show ?thesis by (simp add: upsert_def)
next
  case (Some i)
  from findIndex_Some[OF Some] have "i < length tasks" by simp
  with Some show ?thesis by (simp add: upsert_def set_update_memI)
qed

lemma upsert_distinct:
  assumes "distinct (map task_id tasks)"
  shows "distinct (map task_id (upsert t tasks))"
proof (cases "findIndex (\<lambda>x. task_id x = task_id t) tasks")
  case None
  then have "task_id t \<notin> set (map task_id tasks)" by (auto simp: findIndex_None)
  with assms None show ?thesis by (simp add: upsert_def)
next
  case (Some i)
  from findIndex_Some[OF Some] have i: "i < length tasks" "task_id (tasks ! i) = task_id t"
    by simp_all
  then have "map task_id (tasks[i := t]) = map task_id tasks"
    by (simp add: map_update list_update_same_conv)
  with assms Some show ?thesis by (simp add: upsert_def)
qed

subsection \<open>saveTask\<close>

lemma transaction_open: "db_open s \<Longrightarrow> transaction s = (Inr (), s)"
  by (simp add: transaction_def)

lemma getTasks_ready:
  "useLocalStorage s \<or> db_open s \<Longrightarrow> getTasks uid s = (Inr (local_tasks uid s), s)"
  by (auto simp: getTasks_def local_tasks_def transaction_open split: option.splits)

lemma saveTask_fallback:
  "useLocalStorage s \<Longrightarrow>
   saveTask t s = (Inr (), s\<lparr>ls_tasks := ls_set (template (userId t))
                         (upsert t (local_tasks (userId t) s)) (ls_tasks s)\<rparr>)"
  by (simp add: saveTask_def getTasks_ready)

lemma saveTask_idb:
  "\<not> useLocalStorage s \<Longrightarrow> db_open s \<Longrightarrow>
   saveTask t s = (case task_id t of
                     Id k \<Rightarrow> (Inr (), s\<lparr>idb_tasks := os_put k t (idb_tasks s)\<rparr>)
                   | _ \<Rightarrow> (Inl DataError, s))"
  by (simp add: saveTask_def transaction_open split: ident.splits)

lemma ls_set_twice: "ls_set k v' (ls_set k v m) = ls_set k v' m"
  by (induction m) auto

lemma saveTask_opening:
  "\<not> useLocalStorage s \<Longrightarrow> \<not> db_open s \<Longrightarrow> idb_available s \<Longrightarrow>
   saveTask t s = saveTask t (s\<lparr>db_open := True\<rparr>)"
  by (simp add: saveTask_def transaction_def init_def)

lemma saveTask_twice_fallback:
  assumes "useLocalStorage s"
  shows "saveTask t (snd (saveTask t s)) = saveTask t s"
proof -
  let ?k = "template (userId t)"
  let ?L = "upsert t (local_tasks (userId t) s)"
  let ?s1 = "s\<lparr>ls_tasks := ls_set ?k ?L (ls_tasks s)\<rparr>"
  have 1: "saveTask t s = (Inr (), ?s1)" using assms by (rule saveTask_fallback)
  have "local_tasks (userId t) ?s1 = ?L"
    using assms by (simp add: local_tasks_def ls_get_set)
  moreover have "useLocalStorage ?s1" using assms by simp
  ultimately have "saveTask t ?s1 = (Inr (), ?s1\<lparr>ls_tasks := ls_set ?k (upsert t ?L) (ls_tasks ?s1)\<rparr>)"
    by (simp only: saveTask_fallback)
  then have "saveTask t ?s1 = (Inr (), ?s1)"
    by (simp add: upsert_idem ls_set_twice)
  with 1 show ?thesis by simp
qed

lemma saveTask_twice_idb:
  assumes "\<not> useLocalStorage s" "db_open s"
  shows "saveTask t (snd (saveTask t s)) = saveTask t s"
proof (cases "task_id t")
  case (Id k)
  let ?s1 = "s\<lparr>idb_tasks := os_put k t (idb_tasks s)\<rparr>"
  have 1: "saveTask t s = (Inr (), ?s1)" using assms Id by (simp add: saveTask_idb)
  have "saveTask t ?s1 = (Inr (), ?s1\<lparr>idb_tasks := os_put k t (idb_tasks ?s1)\<rparr>)"
    using assms Id by (simp add: saveTask_idb)
  then have "saveTask t ?s1 = (Inr (), ?s1)" by (simp add: os_put_idem)
  with 1 show ?thesis by simp
next
  case Null
  with assms show ?thesis by (simp add: saveTask_idb)
next
  case Undefined
  with assms show ?thesis by (simp add: saveTask_idb)
qed

lemma saveTask_twice: "initialised s \<Longrightarrow> saveTask t (snd (saveTask t s)) = saveTask t s"
proof -
  assume i: "initialised s"
  consider "useLocalStorage s" | "\<not> useLocalStorage s" "db_open s"
    | "\<not> useLocalStorage s" "\<not> db_open s" "idb_available s"
    using i by (auto simp: initialised_def)
  then show ?thesis
  proof cases
    case 1
    then show ?thesis by (rule saveTask_twice_fallback)
  next
    case 2
    then show ?thesis by (rule saveTask_twice_idb)
  next
    case 3
    then have "saveTask t s = saveTask t (s\<lparr>db_open := True\<rparr>)" by (rule saveTask_opening)
    moreover have "saveTask t (snd (saveTask t (s\<lparr>db_open := True\<rparr>))) = saveTask t (s\<lparr>db_open := True\<rparr>)"
      using 3 by (intro saveTask_twice_idb) simp_all
    ultimately show ?thesis by simp
  qed
qed

lemma saveTask_stored:
  assumes "fst (saveTask t s) = Inr ()"
  shows "t \<in> set (stored_tasks (snd (saveTask t s)))"
proof (cases "useLocalStorage s")
  case True
  obtain tasks where "snd (saveTask t s)
      = s\<lparr>ls_tasks := ls_set (template (userId t)) (upsert t tasks) (ls_tasks s)\<rparr>"
    using True by (simp add: saveTask_fallback)
  moreover have "(template (userId t), upsert t tasks)
      \<in> set (ls_set (template (userId t)) (upsert t tasks) (ls_tasks s))"
    by (rule ls_set_mem)
  ultimately show ?thesis
    using True upsert_mem[of t tasks] by (force simp: stored_tasks_def)
next
  case False
  with assms obtain k where k: "task_id t = Id k"
    by (auto simp: saveTask_def transaction_def init_def split: ident.splits if_splits)
  have "(k, t) \<in> set (os_put k t xs)" for xs by (rule os_put_mem)
  then have "t \<in> snd ` set (os_put k t xs)" for xs by force
  with assms False k show ?thesis
    by (auto simp: saveTask_def transaction_def init_def stored_tasks_def os_getAll_def
        split: if_splits)
qed

lemma filter_same_key:
  "distinct (map f ys) \<Longrightarrow> y \<in> set ys \<Longrightarrow> filter (\<lambda>x. f x = f y) ys = [y]"
proof (induction ys)
  case Nil
  then show ?case by simp
next
  case (Cons a ys)
  show ?case
  proof (cases "a = y")
    case True
    from Cons.prems(1) have "\<forall>x\<in>set ys. f x \<noteq> f a" by (auto simp: image_iff)
    then have "filter (\<lambda>x. f x = f a) ys = []" by (simp add: filter_empty_conv)
    with True show ?thesis by simp
  next
    case False
    with Cons.prems have y: "y \<in> set ys" and d: "distinct (map f ys)" by auto
    from Cons.prems(1) y have "f a \<noteq> f y" by (auto simp: image_iff)
    with Cons.IH[OF d y] show ?thesis by simp
  qed
qed

lemma keyed_distinct:
  assumes "sorted_wrt (<) (map fst xs)" "list_all (\<lambda>kv. task_id (snd kv) = Id (fst kv)) xs"
  shows "distinct (map task_id (map snd xs))"
proof -
  from assms(1) have "distinct (map fst xs)" by (simp add: strict_sorted_iff)
  then have d: "distinct (map (\<lambda>kv. Id (fst kv)) xs)"
    by (auto simp: distinct_map inj_on_def)
  from assms(2) have e: "map task_id (map snd xs) = map (\<lambda>kv. Id (fst kv)) xs"
    by (induction xs) auto
  show ?thesis unfolding e by (rule d)
qed

lemma saveTask_idb_init:
  assumes "initialised s" "\<not> useLocalStorage s"
  shows "saveTask t s =
     (case task_id t of
        Id k \<Rightarrow> (Inr (), s\<lparr>db_open := True, idb_tasks := os_put k t (idb_tasks s)\<rparr>)
      | _ \<Rightarrow> (Inl DataError, s\<lparr>db_open := True\<rparr>))"
proof (cases "db_open s")
  case True
  then have "s\<lparr>db_open := True\<rparr> = s" by simp
  with assms(2) True show ?thesis
    by (cases "task_id t") (simp_all add: saveTask_idb)
next
  case False
  with assms have a: "idb_available s" by (simp add: initialised_def)
  have "saveTask t s = saveTask t (s\<lparr>db_open := True\<rparr>)"
    using assms(2) False a by (rule saveTask_opening)
  also have "\<dots> = (case task_id t of
        Id k \<Rightarrow> (Inr (), s\<lparr>db_open := True, idb_tasks := os_put k t (idb_tasks s)\<rparr>)
      | _ \<Rightarrow> (Inl DataError, s\<lparr>db_open := True\<rparr>))"
    using assms(2) by (cases "task_id t") (simp_all add: saveTask_idb)
  finally show ?thesis .
qed

lemma saveTask_result:
  assumes "initialised s"
  shows "fst (saveTask t s) =
           (if useLocalStorage s then Inr ()
            else (case task_id t of Id k \<Rightarrow> Inr () | _ \<Rightarrow> Inl DataError))"
proof (cases "useLocalStorage s")
  case True
  then show ?thesis by (simp add: saveTask_fallback)
next
  case False
  with assms show ?thesis by (cases "task_id t") (simp_all add: saveTask_idb_init)
qed

lemma saveTask_keeps_path:
  assumes "initialised s"
  shows "useLocalStorage (snd (saveTask t s)) = useLocalStorage s"
proof (cases "useLocalStorage s")
  case True
  then show ?thesis by (simp add: saveTask_fallback)
next
  case False
  with assms show ?thesis by (cases "task_id t") (simp_all add: saveTask_idb_init)
qed

lemma saveTask_idb_keyed:
  assumes "initialised s" "\<not> useLocalStorage s" "idb_keyed s"
  shows "idb_keyed (snd (saveTask t s))"
  using assms
  by (cases "task_id t")
     (simp_all add: saveTask_idb_init idb_keyed_def os_put_sorted os_put_keys)

lemma stored_tasks_idb_distinct:
  assumes "\<not> useLocalStorage s" "idb_keyed s"
  shows "distinct (map task_id (stored_tasks s))"
proof -
  from assms(2) have "distinct (map task_id (map snd (idb_tasks s)))"
    by (intro keyed_distinct) (simp_all add: idb_keyed_def)
  with assms(1) show ?thesis by (simp only: stored_tasks_def os_getAll_def if_False)
qed

lemma saveTask_idb_record:
  assumes "initialised s" "\<not> useLocalStorage s" "idb_keyed s" "fst (saveTask t s) = Inr ()"
  shows "records_with (task_id t) (snd (saveTask t s)) = [t]"
proof -
  let ?s' = "snd (saveTask t s)"
  from assms(1,2) have p: "\<not> useLocalStorage ?s'" by (simp add: saveTask_keeps_path)
  from assms(1,2,3) have "idb_keyed ?s'" by (rule saveTask_idb_keyed)
  with p have "distinct (map task_id (stored_tasks ?s'))" by (rule stored_tasks_idb_distinct)
  moreover from assms(4) have "t \<in> set (stored_tasks ?s')" by (rule saveTask_stored)
  ultimately show ?thesis unfolding records_with_def by (rule filter_same_key)
qed

lemma saveTask_fallback_lists:
  assumes "useLocalStorage s" "ls_lists_distinct s"
  shows "ls_lists_distinct (snd (saveTask t s))"
    and "filter (\<lambda>x. task_id x = task_id t) (local_tasks (userId t) (snd (saveTask t s))) = [t]"
proof -
  let ?k = "template (userId t)"
  let ?L = "local_tasks (userId t) s"
  let ?P = "\<lambda>ut. distinct (map task_id (snd ut))"
  have all: "list_all ?P (ls_tasks s)" using assms(2) by (simp add: ls_lists_distinct_def)
  have "distinct (map task_id ?L)"
  proof (cases "ls_get (ls_tasks s) ?k")
    case None
    with assms(1) show ?thesis by (simp add: local_tasks_def)
  next
    case (Some tasks)
    from ls_get_all[OF all Some] assms(1) Some show ?thesis by (simp add: local_tasks_def)
  qed
  then have d: "distinct (map task_id (upsert t ?L))" by (rule upsert_distinct)
  with all assms(1) show "ls_lists_distinct (snd (saveTask t s))"
    by (simp add: saveTask_fallback ls_lists_distinct_def ls_set_all)
  have "local_tasks (userId t) (snd (saveTask t s)) = upsert t ?L"
    using assms(1) by (simp add: saveTask_fallback local_tasks_def ls_get_set)
  moreover have "filter (\<lambda>x. task_id x = task_id t) (upsert t ?L) = [t]"
    using d upsert_mem by (rule filter_same_key)
  ultimately
  show "filter (\<lambda>x. task_id x = task_id t) (local_tasks (userId t) (snd (saveTask t s))) = [t]"
    by simp
qed

text \<open>
  C9, as the code has it. Once the storage service is on one of its two paths, saving
  the same record twice gives the same result and the same store as saving it once.
  The save succeeds on the fallback path, and on the IndexedDB path when the record has
  an \<^verbatim>\<open>_id\<close>. On the IndexedDB path the store keeps one record per identifier, the
  saved one under its own. On the fallback path only the list of the record's user is
  kept free of a second record of the \<^verbatim>\<open>_id\<close>.
\<close>

theorem saveTask_idempotent:
  assumes "initialised s"
  shows "saveTask t (snd (saveTask t s)) = saveTask t s \<and>
     fst (saveTask t s) =
       (if useLocalStorage s then Inr ()
        else (case task_id t of Id k \<Rightarrow> Inr () | _ \<Rightarrow> Inl DataError)) \<and>
     (\<not> useLocalStorage s \<and> idb_keyed s \<longrightarrow>
        idb_keyed (snd (saveTask t s)) \<and>
        distinct (map task_id (stored_tasks (snd (saveTask t s)))) \<and>
        (fst (saveTask t s) = Inr () \<longrightarrow> records_with (task_id t) (snd (saveTask t s)) = [t])) \<and>
     (useLocalStorage s \<and> ls_lists_distinct s \<longrightarrow>
        ls_lists_distinct (snd (saveTask t s)) \<and>
        filter (\<lambda>x. task_id x = task_id t) (local_tasks (userId t) (snd (saveTask t s))) = [t])"
proof -
  have 1: "saveTask t (snd (saveTask t s)) = saveTask t s" using assms by (rule saveTask_twice)
  have 2: "fst (saveTask t s) =
       (if useLocalStorage s then Inr ()
        else (case task_id t of Id k \<Rightarrow> Inr () | _ \<Rightarrow> Inl DataError))"
    using assms by (rule saveTask_result)
  have 3: "idb_keyed (snd (saveTask t s)) \<and>
        distinct (map task_id (stored_tasks (snd (saveTask t s)))) \<and>
        (fst (saveTask t s) = Inr () \<longrightarrow> records_with (task_id t) (snd (saveTask t s)) = [t])"
    if p: "\<not> useLocalStorage s" and k: "idb_keyed s"
  proof -
    from assms p k have k': "idb_keyed (snd (saveTask t s))" by (rule saveTask_idb_keyed)
    from assms p have "\<not> useLocalStorage (snd (saveTask t s))" by (simp add: saveTask_keeps_path)
    then have "distinct (map task_id (stored_tasks (snd (saveTask t s))))"
      using k' by (rule stored_tasks_idb_distinct)
    with k' saveTask_idb_record[OF assms p k] show ?thesis by blast
  qed
  from 1 2 3 saveTask_fallback_lists[of s t] show ?thesis by blast
qed

theorem saveTask_idempotent_witness:
  "initialised (fallback_storage\<lparr>ls_tasks := [(''u1'', [task_a])]\<rparr>) \<and>
   ls_lists_distinct (fallback_storage\<lparr>ls_tasks := [(''u1'', [task_a])]\<rparr>) \<and>
   saveTask (task_a\<lparr>updatedAt := Some 200\<rparr>)
       (snd (saveTask (task_a\<lparr>updatedAt := Some 200\<rparr>)
               (fallback_storage\<lparr>ls_tasks := [(''u1'', [task_a])]\<rparr>)))
     = saveTask (task_a\<lparr>updatedAt := Some 200\<rparr>)
         (fallback_storage\<lparr>ls_tasks := [(''u1'', [task_a])]\<rparr>) \<and>
   stored_tasks (snd (saveTask (task_a\<lparr>updatedAt := Some 200\<rparr>)
                        (fallback_storage\<lparr>ls_tasks := [(''u1'', [task_a])]\<rparr>)))
     = [task_a\<lparr>updatedAt := Some 200\<rparr>] \<and>
   initialised (idb_storage\<lparr>idb_tasks := [(''64b000000000000000000001'', task_a)]\<rparr>) \<and>
   idb_keyed (idb_storage\<lparr>idb_tasks := [(''64b000000000000000000001'', task_a)]\<rparr>) \<and>
   saveTask (task_a\<lparr>updatedAt := Some 200\<rparr>)
       (snd (saveTask (task_a\<lparr>updatedAt := Some 200\<rparr>)
               (idb_storage\<lparr>idb_tasks := [(''64b000000000000000000001'', task_a)]\<rparr>)))
     = saveTask (task_a\<lparr>updatedAt := Some 200\<rparr>)
         (idb_storage\<lparr>idb_tasks := [(''64b000000000000000000001'', task_a)]\<rparr>) \<and>
   records_with (Id ''64b000000000000000000001'')
       (snd (saveTask (task_a\<lparr>updatedAt := Some 200\<rparr>)
               (idb_storage\<lparr>idb_tasks := [(''64b000000000000000000001'', task_a)]\<rparr>)))
     = [task_a\<lparr>updatedAt := Some 200\<rparr>]"
proof -
  let ?f = "fallback_storage\<lparr>ls_tasks := [(''u1'', [task_a])]\<rparr>"
  let ?i = "idb_storage\<lparr>idb_tasks := [(''64b000000000000000000001'', task_a)]\<rparr>"
  let ?t = "task_a\<lparr>updatedAt := Some 200\<rparr>"
  have f1: "initialised ?f" by (simp add: initialised_def fallback_storage_def)
  have f2: "ls_lists_distinct ?f" by (simp add: ls_lists_distinct_def fallback_storage_def)
  have f3: "stored_tasks (snd (saveTask ?t ?f)) = [?t]"
    by (simp add: fallback_storage_def task_a_def saveTask_def getTasks_def ls_get_def
        upsert_def stored_tasks_def)
  have i1: "initialised ?i" by (simp add: initialised_def idb_storage_def)
  have i2: "idb_keyed ?i" by (simp add: idb_keyed_def idb_storage_def task_a_def)
  have i3: "\<not> useLocalStorage ?i" by (simp add: idb_storage_def)
  have i4: "task_id ?t = Id ''64b000000000000000000001''" by (simp add: task_a_def)
  from saveTask_idempotent [OF f1, of ?t] saveTask_idempotent [OF i1, of ?t] f1 f2 f3 i1 i2 i3 i4
  show ?thesis by simp
qed

text \<open>The claim as it stands fails twice. At the start, with \<^verbatim>\<open>openDB\<close> rejecting, the
  first \<^verbatim>\<open>saveTask\<close> throws and stores nothing and the second one stores the record:
  twice is not once. On the fallback path a record whose \<^verbatim>\<open>_id\<close> is already stored for
  another user is added, not replaced: the store then holds two records of one
  identifier.\<close>

theorem saveTask_not_idempotent_at_start:
  "fst (saveTask task_a startup_storage) = Inl TypeError \<and>
   stored_tasks (snd (saveTask task_a startup_storage)) = [] \<and>
   fst (saveTask task_a (snd (saveTask task_a startup_storage))) = Inr () \<and>
   stored_tasks (snd (saveTask task_a (snd (saveTask task_a startup_storage)))) = [task_a] \<and>
   records_with (Id ''64b000000000000000000001'')
       (fallback_storage\<lparr>ls_tasks := [(''u1'', [task_a])]\<rparr>) = [task_a] \<and>
   records_with (Id ''64b000000000000000000001'')
       (snd (saveTask (task_a\<lparr>userId := Id ''u2''\<rparr>)
               (fallback_storage\<lparr>ls_tasks := [(''u1'', [task_a])]\<rparr>)))
     = [task_a, task_a\<lparr>userId := Id ''u2''\<rparr>]"
  by (simp add: startup_storage_def fallback_storage_def task_a_def saveTask_def getTasks_def
      transaction_def init_def ls_get_def upsert_def stored_tasks_def records_with_def
      os_getAll_def)

section \<open>The offline layer\<close>

lemma local_tasks_stored: "truthy uid \<Longrightarrow> set (local_tasks uid s) \<subseteq> set (stored_tasks s)"
proof (cases "useLocalStorage s")
  case True
  show ?thesis
  proof (cases "ls_get (ls_tasks s) (template uid)")
    case None
    with True show ?thesis by (simp add: local_tasks_def)
  next
    case (Some tasks)
    then have "(template uid, tasks) \<in> set (ls_tasks s)"
      by (simp add: ls_get_def map_of_SomeD)
    then have "set tasks \<subseteq> set (concat (map snd (ls_tasks s)))" by force
    with True Some show ?thesis by (simp add: local_tasks_def stored_tasks_def)
  qed
next
  case False
  assume "truthy uid"
  then obtain u where "uid = Id u" by (cases uid) auto
  with False show ?thesis by (auto simp: local_tasks_def stored_tasks_def)
qed

lemma getTasks_stores:
  "idb_tasks (snd (getTasks uid s)) = idb_tasks s \<and> idb_queue (snd (getTasks uid s)) = idb_queue s \<and>
   ls_tasks (snd (getTasks uid s)) = ls_tasks s \<and> ls_queue (snd (getTasks uid s)) = ls_queue s"
  by (simp add: getTasks_def transaction_def init_def Let_def split: option.splits)

lemma getTasks_initialised:
  "initialised s \<Longrightarrow> \<exists>s'. getTasks uid s = (Inr (local_tasks uid s), s')"
  by (auto simp: initialised_def getTasks_def local_tasks_def transaction_def init_def
      split: option.splits)

lemma getTasks_not_initialised:
  "\<not> initialised s \<Longrightarrow> getTasks uid s = (Inl TypeError, s\<lparr>useLocalStorage := True\<rparr>)"
  by (simp add: initialised_def getTasks_def transaction_def init_def)




subsection \<open>What the steps of a pass leave alone\<close>

lemma transaction_frame:
  "queue_of (snd (transaction s)) = queue_of s \<and> idb_tasks (snd (transaction s)) = idb_tasks s
   \<and> ls_tasks (snd (transaction s)) = ls_tasks s"
  by (simp add: transaction_def init_def queue_of_def Let_def)

lemma getTasks_queue: "queue_of (snd (getTasks uid s)) = queue_of s"
  using getTasks_stores[of uid s] by (simp add: queue_of_def)

lemma saveTask_queue: "queue_of (snd (saveTask t s)) = queue_of s"
proof (cases "useLocalStorage s")
  case True
  then show ?thesis by (simp add: saveTask_fallback queue_of_def)
next
  case False
  obtain r s' where t: "transaction s = (r, s')" by (cases "transaction s")
  with transaction_frame[of s] have "queue_of s' = queue_of s" by simp
  with False t show ?thesis
    by (cases r; cases "task_id t") (simp_all add: saveTask_def queue_of_def)
qed

lemma deleteTask_queue: "queue_of (snd (deleteTask i uid s)) = queue_of s"
proof (cases "useLocalStorage s")
  case True
  then show ?thesis by (simp add: deleteTask_def getTasks_ready queue_of_def)
next
  case False
  obtain r s' where t: "transaction s = (r, s')" by (cases "transaction s")
  with transaction_frame[of s] have "queue_of s' = queue_of s" by simp
  with False t show ?thesis
    by (cases r) (simp_all add: deleteTask_def queue_of_def)
qed

lemma on_idb_transaction: "on_idb s \<Longrightarrow> transaction s = (Inr (), s)"
  by (simp add: on_idb_def transaction_open)

lemma getTasks_on_idb: "on_idb s \<Longrightarrow> on_idb (snd (getTasks uid s))"
  by (simp add: getTasks_def on_idb_transaction) (simp add: on_idb_def)

lemma saveTask_on_idb: "on_idb s \<Longrightarrow> on_idb (snd (saveTask t s))"
  by (cases "task_id t") (simp_all add: on_idb_def saveTask_idb)

lemma deleteTask_on_idb: "on_idb s \<Longrightarrow> on_idb (snd (deleteTask i uid s))"
  by (simp add: deleteTask_def on_idb_transaction) (simp add: on_idb_def)

lemma on_storage_frame:
  assumes "\<And>s. queue_of (snd (f s)) = queue_of s" "\<And>s. on_idb s \<Longrightarrow> on_idb (snd (f s))"
    "\<And>s. useLocalStorage s \<Longrightarrow> useLocalStorage (snd (f s))"
  shows "pass_frame w (snd (on_storage f w)) \<and> remote (snd (on_storage f w)) = remote w"
  using assms[of "storageService w"]
  by (cases "f (storageService w)") (simp add: on_storage_def pass_frame_def)

lemma on_remote_frame:
  "pass_frame w (snd (on_remote f w)) \<and> storageService (snd (on_remote f w)) = storageService w \<and>
   remote (snd (on_remote f w)) = snd (f (remote w)) \<and>
   fst (on_remote f w) = fst (f (remote w))"
  by (cases "f (remote w)") (simp add: on_remote_def pass_frame_def)

lemma pass_frame_refl: "pass_frame w w"
  by (simp add: pass_frame_def)

lemma pass_frame_trans: "pass_frame w w1 \<Longrightarrow> pass_frame w1 w2 \<Longrightarrow> pass_frame w w2"
  by (simp add: pass_frame_def split: if_splits)

lemma getTasks_fallback_kept: "useLocalStorage s \<Longrightarrow> useLocalStorage (snd (getTasks uid s))"
  by (simp add: getTasks_ready)

lemma saveTask_fallback_kept: "useLocalStorage s \<Longrightarrow> useLocalStorage (snd (saveTask t s))"
  by (simp add: saveTask_fallback)

lemma deleteTask_fallback_kept: "useLocalStorage s \<Longrightarrow> useLocalStorage (snd (deleteTask i uid s))"
  by (simp add: deleteTask_def getTasks_ready)

lemma saveTask_frame: "pass_frame w (snd (on_storage (saveTask t) w))"
  using on_storage_frame[of "saveTask t" w]
  by (simp add: saveTask_queue saveTask_on_idb saveTask_fallback_kept)

lemma deleteTask_frame: "pass_frame w (snd (on_storage (deleteTask i uid) w))"
  using on_storage_frame[of "deleteTask i uid" w]
  by (simp add: deleteTask_queue deleteTask_on_idb deleteTask_fallback_kept)

lemma getOfflineTasks_frame: "pass_frame w (snd (getOfflineTasks w))"
  using on_storage_frame[of "getTasks (this_userId w)" w]
  by (simp add: getOfflineTasks_def getTasks_queue getTasks_on_idb getTasks_fallback_kept
      pass_frame_refl)

lemma processOperation_frame: "pass_frame w (snd (processOperation gw operation w))"
proof (cases "op_type operation")
  case CREATE
  let ?c = "on_remote (ts_createTask gw (data operation)) w"
  obtain r w1 where c: "?c = (r, w1)" by (cases ?c)
  with on_remote_frame[of w "ts_createTask gw (data operation)"] have f1: "pass_frame w w1" by simp
  show ?thesis
  proof (cases r)
    case (Inl err)
    with CREATE c f1 show ?thesis by (simp add: processOperation_def)
  next
    case (Inr newTask)
    let ?d = "on_storage (deleteTask (taskId operation) (this_userId w1)) w1"
    obtain r2 w2 where d: "?d = (r2, w2)" by (cases ?d)
    with deleteTask_frame[of w1 "taskId operation" "this_userId w1"] have f2: "pass_frame w1 w2"
      by simp
    show ?thesis
    proof (cases r2)
      case (Inl err)
      with CREATE c Inr d f1 f2 show ?thesis
        by (simp add: processOperation_def) (rule pass_frame_trans)
    next
      case ok: (Inr u)
      have "pass_frame w2 (snd (on_storage (saveTask newTask) w2))" by (rule saveTask_frame)
      with f1 f2 have "pass_frame w (snd (on_storage (saveTask newTask) w2))"
        by (blast intro: pass_frame_trans)
      with CREATE c Inr d ok show ?thesis by (simp add: processOperation_def)
    qed
  qed
next
  case UPDATE
  obtain r w1 where g: "getOfflineTasks w = (r, w1)" by (cases "getOfflineTasks w")
  with getOfflineTasks_frame[of w] have f1: "pass_frame w w1" by simp
  show ?thesis
  proof (cases r)
    case (Inl err)
    with UPDATE g f1 show ?thesis by (simp add: processOperation_def)
  next
    case (Inr localTasks)
    let ?u = "on_remote (ts_updateTask gw (taskId operation) (data operation)) w1"
    obtain r2 w2 where u: "?u = (r2, w2)" by (cases ?u)
    with on_remote_frame[of w1 "ts_updateTask gw (taskId operation) (data operation)"]
    have "pass_frame w1 w2" by simp
    with f1 have f2: "pass_frame w w2" by (rule pass_frame_trans)
    have f3: "pass_frame w (snd (on_storage (saveTask t) w2))" for t
      using f2 saveTask_frame[of w2 t] by (rule pass_frame_trans)
    from UPDATE g Inr u f1 f2 f3 show ?thesis
      by (simp add: processOperation_def split: option.splits ident.splits sum.splits)
  qed
next
  case DELETE
  with on_remote_frame[of w "ts_deleteTask gw (taskId operation)"] show ?thesis
    by (simp add: processOperation_def pass_frame_refl)
qed

lemma on_storage_remote: "remote (snd (on_storage f w)) = remote w"
  by (cases "f (storageService w)") (simp add: on_storage_def)

subsection \<open>Reconciliation leaves the queue alone\<close>

lemma saveAll_frame:
  "queue_of (snd (saveAll ts s)) = queue_of s \<and> (on_idb s \<longrightarrow> on_idb (snd (saveAll ts s))) \<and>
   (useLocalStorage s \<longrightarrow> useLocalStorage (snd (saveAll ts s)))"
proof (induction ts arbitrary: s)
  case Nil
  show ?case by simp
next
  case (Cons t ts)
  obtain r s1 where 1: "saveTask t s = (r, s1)" by (cases "saveTask t s")
  with saveTask_queue[of t s] saveTask_on_idb[of s t] saveTask_fallback_kept[of s t]
  have f: "queue_of s1 = queue_of s" "on_idb s \<longrightarrow> on_idb s1"
    "useLocalStorage s \<longrightarrow> useLocalStorage s1" by auto
  show ?case
  proof (cases r)
    case (Inl err)
    with 1 f show ?thesis by simp
  next
    case (Inr u)
    with 1 f Cons.IH[of s1] show ?thesis by simp
  qed
qed

lemma log_frame:
  "storageService (log entry w) = storageService w \<and> remote (log entry w) = remote w \<and>
   isOnline (log entry w) = isOnline w \<and> this_userId (log entry w) = this_userId w"
  by (simp add: log_def)

lemma getOfflineTasks_remote: "remote (snd (getOfflineTasks w)) = remote w"
  by (simp add: getOfflineTasks_def on_storage_remote)

lemma syncFromServer_frame:
  "remote (syncFromServer gw w) = snd (ts_getTasks gw (remote w)) \<and>
   queue_of (storageService (syncFromServer gw w)) = queue_of (storageService w) \<and>
   syncInProgress (syncFromServer gw w) = syncInProgress w \<and>
   isOnline (syncFromServer gw w) = isOnline w \<and>
   this_userId (syncFromServer gw w) = this_userId w"
proof -
  let ?g = "on_remote (ts_getTasks gw) w"
  obtain r w1 where g: "?g = (r, w1)" by (cases ?g)
  with on_remote_frame[of w "ts_getTasks gw"]
  have 1: "remote w1 = snd (ts_getTasks gw (remote w))" "pass_frame w w1" by simp_all
  show ?thesis
  proof (cases r)
    case (Inl err)
    with g 1 show ?thesis by (simp add: syncFromServer_def log_def pass_frame_def)
  next
    case (Inr serverTasks)
    obtain r2 w2 where l: "getOfflineTasks w1 = (r2, w2)" by (cases "getOfflineTasks w1")
    with getOfflineTasks_frame[of w1] getOfflineTasks_remote[of w1]
    have 2: "remote w2 = remote w1" "pass_frame w1 w2" by simp_all
    from 1(2) 2(2) have f2: "pass_frame w w2" by (rule pass_frame_trans)
    have 3: "remote (snd (on_storage (saveAll ts) w2)) = remote w2 \<and>
        pass_frame w2 (snd (on_storage (saveAll ts) w2))" for ts
      using on_storage_frame[of "saveAll ts" w2] saveAll_frame by (simp add: on_storage_remote)
    have 4: "remote w' = remote w2 \<and> pass_frame w2 (w'\<lparr>console := console w2\<rparr>)"
      if "w' = (case on_storage (saveAll ts) w2 of
                  (Inl err, w3) \<Rightarrow> log (FailedToSyncFromServer err) w3
                | (Inr u, w3) \<Rightarrow> w3)" for w' ts
      using that 3[of ts]
      by (cases "on_storage (saveAll ts) w2")
         (auto simp: log_def pass_frame_def split: sum.splits if_splits)
    have 5: "remote w' = snd (ts_getTasks gw (remote w)) \<and>
        queue_of (storageService w') = queue_of (storageService w) \<and>
        syncInProgress w' = syncInProgress w \<and> isOnline w' = isOnline w \<and>
        this_userId w' = this_userId w"
      if "remote w' = remote w2" "pass_frame w2 (w'\<lparr>console := console w2\<rparr>)" for w'
      using that 1(1) 2(1) f2 by (simp add: pass_frame_def split: if_splits)
    from g Inr l show ?thesis
    proof (cases r2)
      case e: (Inl err)
      have "remote (log (FailedToSyncFromServer err) w2) = remote w2"
        "pass_frame w2 ((log (FailedToSyncFromServer err) w2)\<lparr>console := console w2\<rparr>)"
        by (simp_all add: log_def pass_frame_def)
      from 5[OF this] g Inr l e show ?thesis by (simp add: syncFromServer_def)
    next
      case ok: (Inr localTasks)
      show ?thesis
      proof (cases serverTasks)
        case (Object x)
        have "remote (log (FailedToSyncFromServer TypeError) w2) = remote w2"
          "pass_frame w2 ((log (FailedToSyncFromServer TypeError) w2)\<lparr>console := console w2\<rparr>)"
          by (simp_all add: log_def pass_frame_def)
        from 5[OF this] g Inr l ok Object show ?thesis by (simp add: syncFromServer_def)
      next
        case (Array ts)
        let ?new = "filter (\<lambda>serverTask.
            \<not> list_ex (\<lambda>localTask. task_id localTask = task_id serverTask) localTasks) ts"
        let ?upd = "filter (\<lambda>serverTask.
             case find (\<lambda>lt. task_id lt = task_id serverTask) localTasks of
               Some localTask \<Rightarrow> newer (updatedAt serverTask) (updatedAt localTask)
             | None \<Rightarrow> False) ts"
        let ?w' = "(case on_storage (saveAll (?new @ ?upd)) w2 of
                  (Inl err, w3) \<Rightarrow> log (FailedToSyncFromServer err) w3
                | (Inr u, w3) \<Rightarrow> w3)"
        from 4[of ?w' "?new @ ?upd"] have "remote ?w' = remote w2"
          "pass_frame w2 (?w'\<lparr>console := console w2\<rparr>)" by simp_all
        from 5[OF this] g Inr l ok Array show ?thesis by (simp add: syncFromServer_def)
      qed
    qed
  qed
qed


subsection \<open>The pass run alone\<close>

lemma syncOne_unfold:
  "syncOne gw operation w =
     (case processOperation gw operation w of
        (Inl err, w1) \<Rightarrow> log (FailedToSyncOperation operation err) w1
      | (Inr u, w1) \<Rightarrow>
          (case on_storage (removeFromSyncQueue (item_id operation)) w1 of
             (Inl err, w2) \<Rightarrow> log (FailedToSyncOperation operation err) w2
           | (Inr u', w2) \<Rightarrow> w2))"
  by (simp add: syncOne_def syncOne_at_def)

lemma drain_Nil [simp]: "drain gw [] w = w"
  by (simp add: drain_def)

lemma drain_Cons [simp]:
  "drain gw (operation # syncQueue) w = drain gw syncQueue (syncOne gw operation w)"
  by (simp add: drain_def syncOne_def)

lemma syncPendingChanges_unfold:
  "syncPendingChanges gw w =
     (if \<not> isOnline w \<or> syncInProgress w \<or> \<not> truthy (this_userId w) then w
      else
        (let w0 = w\<lparr>syncInProgress := True\<rparr>;
             w' = (case on_storage getSyncQueue w0 of
                     (Inl err, w1) \<Rightarrow> log (SyncFailed err) w1
                   | (Inr syncQueue, w1) \<Rightarrow> syncFromServer gw (drain gw syncQueue w1))
         in w'\<lparr>syncInProgress := False\<rparr>))"
  unfolding syncPendingChanges_def syncPendingChanges_at_def drain_def by simp

subsection \<open>One turn of the loop\<close>

lemma syncOne_failed:
  assumes "fst (processOperation gw operation w) = Inl err"
  shows "queue_of (storageService (syncOne gw operation w)) = queue_of (storageService w)"
    and "console (syncOne gw operation w) = console w @ [FailedToSyncOperation operation err]"
    and "isOnline (syncOne gw operation w) = isOnline w"
    and "on_idb (storageService w) \<Longrightarrow> on_idb (storageService (syncOne gw operation w))"
proof -
  obtain w1 where p: "processOperation gw operation w = (Inl err, w1)"
    using assms by (cases "processOperation gw operation w") simp
  with processOperation_frame[of w gw operation] have f: "pass_frame w w1" by simp
  from p have s: "syncOne gw operation w = log (FailedToSyncOperation operation err) w1"
    by (simp add: syncOne_unfold)
  from f s show "queue_of (storageService (syncOne gw operation w)) = queue_of (storageService w)"
    by (simp add: log_def pass_frame_def)
  from f s show "console (syncOne gw operation w) = console w @ [FailedToSyncOperation operation err]"
    by (simp add: log_def pass_frame_def)
  from f s show "isOnline (syncOne gw operation w) = isOnline w"
    by (simp add: log_def pass_frame_def)
  from f s show "on_idb (storageService w) \<Longrightarrow> on_idb (storageService (syncOne gw operation w))"
    by (simp add: log_def pass_frame_def)
qed

lemma removeFromSyncQueue_on_idb:
  "on_idb s \<Longrightarrow> removeFromSyncQueue i s = (Inr (), s\<lparr>idb_queue := os_delete i (idb_queue s)\<rparr>)"
  by (simp add: removeFromSyncQueue_def on_idb_def transaction_open)

lemma syncOne_done:
  assumes "fst (processOperation gw operation w) = Inr u" "on_idb (storageService w)"
  shows "idb_queue (storageService (syncOne gw operation w))
           = os_delete (item_id operation) (idb_queue (storageService w))"
    and "console (syncOne gw operation w) = console w"
    and "isOnline (syncOne gw operation w) = isOnline w"
    and "on_idb (storageService (syncOne gw operation w))"
proof -
  obtain w1 where p: "processOperation gw operation w = (Inr u, w1)"
    using assms(1) by (cases "processOperation gw operation w") simp
  with processOperation_frame[of w gw operation] have f: "pass_frame w w1" by simp
  with assms(2) have i: "on_idb (storageService w1)" by (simp add: pass_frame_def)
  let ?s = "(storageService w1)\<lparr>idb_queue := os_delete (item_id operation) (idb_queue (storageService w1))\<rparr>"
  from p i have s: "syncOne gw operation w = w1\<lparr>storageService := ?s\<rparr>"
    by (simp add: syncOne_unfold on_storage_def removeFromSyncQueue_on_idb)
  from f have q: "idb_queue (storageService w1) = idb_queue (storageService w)"
    by (simp add: pass_frame_def queue_of_def)
  from s q show "idb_queue (storageService (syncOne gw operation w))
           = os_delete (item_id operation) (idb_queue (storageService w))" by simp
  from f s show "console (syncOne gw operation w) = console w" by (simp add: pass_frame_def)
  from f s show "isOnline (syncOne gw operation w) = isOnline w" by (simp add: pass_frame_def)
  from i s show "on_idb (storageService (syncOne gw operation w))" by (simp add: on_idb_def)
qed

subsection \<open>Errors of the gateway\<close>

lemma processOperation_delete_sent:
  "sends_delete operation \<Longrightarrow>
   processOperation gw operation w = on_remote (ts_deleteTask gw (taskId operation)) w"
  by (simp add: sends_delete_def processOperation_def)

lemma processOperation_update_rejected:
  assumes "sends_update operation w"
    and "fst (ts_updateTask gw (taskId operation) (data operation) (remote w)) = Inl err"
  shows "fst (processOperation gw operation w) = Inl err"
proof -
  let ?s = "storageService w"
  from assms(1) have u: "op_type operation = UPDATE" and t: "truthy (this_userId w)"
    and r: "useLocalStorage ?s \<or> db_open ?s"
    and n: "\<not> startsWith (taskId operation) ''offline_''"
    and ex: "list_ex (\<lambda>t. task_id t = Id (taskId operation)) (local_tasks (this_userId w) ?s)"
    by (simp_all add: sends_update_def)
  from r have g: "getTasks (this_userId w) ?s = (Inr (local_tasks (this_userId w) ?s), ?s)"
    by (rule getTasks_ready)
  from ex obtain localTask
    where f: "find (\<lambda>t. task_id t = Id (taskId operation)) (local_tasks (this_userId w) ?s)
                = Some localTask"
    by (cases "find (\<lambda>t. task_id t = Id (taskId operation)) (local_tasks (this_userId w) ?s)")
       (auto simp: find_None_iff list_ex_iff)
  then have i: "task_id localTask = Id (taskId operation)" by (auto simp: find_Some_iff)
  obtain g' where c: "ts_updateTask gw (taskId operation) (data operation) (remote w) = (Inl err, g')"
    using assms(2) by (cases "ts_updateTask gw (taskId operation) (data operation) (remote w)") simp
  from u t g f i n c show ?thesis
    by (simp add: processOperation_def getOfflineTasks_def on_storage_def on_remote_def)
qed

text \<open>
  C5, as the code has it. An update or a delete that the gateway rejects stays in
  the queue, whatever the error: a not-found answer is one \<^verbatim>\<open>Error\<close> among the others
  (\<^verbatim>\<open>apiService.request\<close> keeps the message of the response and drops its status), the
  loop logs it and goes on, and the operation is sent again by the next pass.
\<close>

theorem rejected_operation_stays_queued:
  assumes "sends_delete operation \<and>
             fst (ts_deleteTask gw (taskId operation) (remote w)) = Inl err
           \<or> sends_update operation w \<and>
             fst (ts_updateTask gw (taskId operation) (data operation) (remote w)) = Inl err"
  shows "queue_of (storageService (syncOne gw operation w)) = queue_of (storageService w) \<and>
         console (syncOne gw operation w) = console w @ [FailedToSyncOperation operation err]"
proof -
  from assms have "fst (processOperation gw operation w) = Inl err"
  proof
    assume a: "sends_delete operation \<and>
      fst (ts_deleteTask gw (taskId operation) (remote w)) = Inl err"
    with on_remote_frame[of w "ts_deleteTask gw (taskId operation)"] show ?thesis
      by (simp add: processOperation_delete_sent)
  next
    assume "sends_update operation w \<and>
      fst (ts_updateTask gw (taskId operation) (data operation) (remote w)) = Inl err"
    then show ?thesis by (simp add: processOperation_update_rejected)
  qed
  then show ?thesis by (simp add: syncOne_failed)
qed

theorem rejected_operation_stays_queued_witness:
  "sends_delete delete_item \<and>
   fst (ts_deleteTask taskService (taskId delete_item) (remote world_delete))
     = Inl (Error ''Task not found'') \<and>
   queue_of (storageService (syncOne taskService delete_item world_delete))
     = queue_of (storageService world_delete) \<and>
   console (syncOne taskService delete_item world_delete)
     = [FailedToSyncOperation delete_item (Error ''Task not found'')]"
proof -
  have d: "sends_delete delete_item"
    by (simp add: sends_delete_def delete_item_def delete_a_def make_syncItem_def startsWith_def)
  have r: "fst (ts_deleteTask taskService (taskId delete_item) (remote world_delete))
     = Inl (Error ''Task not found'')"
    by code_simp
  have c: "console world_delete = []" by (simp add: world_delete_def world0_def)
  from rejected_operation_stays_queued [of delete_item taskService world_delete
      "Error ''Task not found''"] d r c
  show ?thesis by simp
qed

text \<open>The claim itself fails on the gateway of the repository: after a whole pass in
  which the server answered the queued delete with its 404, \<^verbatim>\<open>Task not found\<close>, the
  operation is still in the queue.\<close>

theorem not_found_is_not_dropped:
  "fst (request (DELETE_task ''64b000000000000000000001'') (remote world_delete))
     = Inl (Error ''Task not found'') \<and>
   fst (getSyncQueue (storageService world_delete)) = Inr [delete_item] \<and>
   fst (getSyncQueue (storageService (syncPendingChanges taskService world_delete)))
     = Inr [delete_item] \<and>
   requests (remote (syncPendingChanges taskService world_delete))
     = [DELETE_task ''64b000000000000000000001'', GET_tasks]"
  by code_simp

subsection \<open>The whole loop\<close>

lemma drain_append: "drain gw (xs @ ys) w = drain gw ys (drain gw xs w)"
  by (induction xs arbitrary: w) simp_all

lemma syncOne_flags:
  "isOnline (syncOne gw operation w) = isOnline w \<and>
   syncInProgress (syncOne gw operation w) = syncInProgress w \<and>
   this_userId (syncOne gw operation w) = this_userId w"
proof -
  obtain r w1 where p: "processOperation gw operation w = (r, w1)"
    by (cases "processOperation gw operation w")
  with processOperation_frame[of w gw operation] have f: "pass_frame w w1" by simp
  let ?rm = "on_storage (removeFromSyncQueue (item_id operation)) w1"
  obtain r2 w2 where rm: "?rm = (r2, w2)" by (cases ?rm)
  then have g: "isOnline w2 = isOnline w1" "syncInProgress w2 = syncInProgress w1"
    "this_userId w2 = this_userId w1"
    by (cases "removeFromSyncQueue (item_id operation) (storageService w1)";
        auto simp: on_storage_def)+
  from p rm f g show ?thesis
    by (cases r; cases r2) (simp_all add: syncOne_unfold log_def pass_frame_def)
qed

lemma drain_isOnline: "isOnline (drain gw syncQueue w) = isOnline w"
  by (induction syncQueue arbitrary: w) (simp_all add: syncOne_flags)

lemma syncOne_on_idb:
  assumes "on_idb (storageService w)"
  shows "on_idb (storageService (syncOne gw operation w)) \<and>
     idb_queue (storageService (syncOne gw operation w))
       = (case fst (processOperation gw operation w) of
            Inl err \<Rightarrow> idb_queue (storageService w)
          | Inr u \<Rightarrow> os_delete (item_id operation) (idb_queue (storageService w))) \<and>
     console (syncOne gw operation w)
       = console w @ (case fst (processOperation gw operation w) of
            Inl err \<Rightarrow> [FailedToSyncOperation operation err]
          | Inr u \<Rightarrow> [])"
proof (cases "fst (processOperation gw operation w)")
  case (Inl err)
  from syncOne_failed[OF Inl] assms Inl show ?thesis by (simp add: queue_of_def)
next
  case (Inr u)
  from syncOne_done[OF Inr assms] Inr show ?thesis by simp
qed

lemma filter_os_delete:
  "filter (\<lambda>kv. fst kv \<notin> K) (os_delete k q) = filter (\<lambda>kv. fst kv \<notin> insert k K) q"
  by (induction q) (auto simp: os_delete_def)

lemma drain_on_idb:
  assumes "on_idb (storageService w)"
  shows "on_idb (storageService (drain gw syncQueue w)) \<and>
     idb_queue (storageService (drain gw syncQueue w))
       = filter (\<lambda>kv. fst kv \<notin> item_id ` set (drain_successes gw syncQueue w))
           (idb_queue (storageService w)) \<and>
     console (drain gw syncQueue w) = console w @ drain_failures gw syncQueue w"
  using assms
proof (induction syncQueue arbitrary: w)
  case Nil
  then show ?case by simp
next
  case (Cons operation syncQueue)
  let ?w1 = "syncOne gw operation w"
  note one = syncOne_on_idb[OF Cons.prems, of gw operation]
  then have i: "on_idb (storageService ?w1)" by simp
  note IH = Cons.IH[OF i]
  show ?case
  proof (cases "fst (processOperation gw operation w)")
    case (Inl err)
    with one IH show ?thesis by simp
  next
    case (Inr u)
    with one IH show ?thesis by (simp add: filter_os_delete)
  qed
qed

lemma failed_operations_append:
  "failed_operations (xs @ ys) = failed_operations xs @ failed_operations ys"
  by (induction xs rule: failed_operations.induct) simp_all

lemma drain_outcomes_subset:
  "set (drain_successes gw syncQueue w) \<subseteq> set syncQueue \<and>
   set (failed_operations (drain_failures gw syncQueue w)) \<subseteq> set syncQueue"
proof (induction syncQueue arbitrary: w)
  case Nil
  show ?case by simp
next
  case (Cons operation syncQueue)
  from Cons[of "syncOne gw operation w"] show ?case
    by (cases "fst (processOperation gw operation w)")
       (auto simp: failed_operations_append)
qed

lemma drain_outcomes_all:
  "mset (failed_operations (drain_failures gw syncQueue w)) + mset (drain_successes gw syncQueue w)
     = mset syncQueue"
proof (induction syncQueue arbitrary: w)
  case Nil
  show ?case by simp
next
  case (Cons operation syncQueue)
  from Cons[of "syncOne gw operation w"] show ?case
    by (cases "fst (processOperation gw operation w)") (simp_all add: failed_operations_append)
qed

lemma drain_outcomes_disjoint:
  assumes "distinct (map item_id syncQueue)"
  shows "item_id ` set (failed_operations (drain_failures gw syncQueue w))
           \<inter> item_id ` set (drain_successes gw syncQueue w) = {}"
  using assms
proof (induction syncQueue arbitrary: w)
  case Nil
  show ?case by simp
next
  case (Cons operation syncQueue)
  let ?w1 = "syncOne gw operation w"
  from Cons.prems have d: "distinct (map item_id syncQueue)"
    and fresh: "item_id operation \<notin> item_id ` set syncQueue" by auto
  from drain_outcomes_subset[of gw syncQueue ?w1] fresh
  have "item_id operation \<notin> item_id ` set (drain_successes gw syncQueue ?w1)"
    "item_id operation \<notin> item_id ` set (failed_operations (drain_failures gw syncQueue ?w1))"
    by blast+
  with Cons.IH[OF d, of ?w1] show ?case
    by (cases "fst (processOperation gw operation w)")
       (auto simp: failed_operations_append)
qed

lemma entries_of_filter:
  "k \<notin> K \<Longrightarrow> entries_of k (filter (\<lambda>kv. fst kv \<notin> K) xs) = entries_of k xs"
  by (induction xs) (auto simp: entries_of_def)

lemma syncOne_fallback:
  assumes "useLocalStorage (storageService w)"
  shows "useLocalStorage (storageService (syncOne gw operation w)) \<and>
     queue_of (storageService (syncOne gw operation w)) = queue_of (storageService w) \<and>
     (\<exists>err. console (syncOne gw operation w) = console w @ [FailedToSyncOperation operation err])"
proof -
  obtain r w1 where p: "processOperation gw operation w = (r, w1)"
    by (cases "processOperation gw operation w")
  with processOperation_frame[of w gw operation] have f: "pass_frame w w1" by simp
  with assms have u: "useLocalStorage (storageService w1)" by (simp add: pass_frame_def)
  show ?thesis
  proof (cases r)
    case (Inl err)
    with p f u show ?thesis by (simp add: syncOne_unfold log_def pass_frame_def)
  next
    case (Inr x)
    from u have "on_storage (removeFromSyncQueue (item_id operation)) w1 = (Inl TypeError, w1)"
      by (simp add: on_storage_def removeFromSyncQueue_fallback)
    with p Inr f u show ?thesis by (simp add: syncOne_unfold log_def pass_frame_def)
  qed
qed

lemma drain_fallback:
  assumes "useLocalStorage (storageService w)"
  shows "queue_of (storageService (drain gw syncQueue w)) = queue_of (storageService w) \<and>
     (\<exists>new. console (drain gw syncQueue w) = console w @ new \<and>
            failed_operations new = syncQueue)"
  using assms
proof (induction syncQueue arbitrary: w)
  case Nil
  then show ?case by simp
next
  case (Cons operation syncQueue)
  let ?w1 = "syncOne gw operation w"
  from syncOne_fallback[OF Cons.prems, of gw operation] obtain err
    where one: "useLocalStorage (storageService ?w1)"
      "queue_of (storageService ?w1) = queue_of (storageService w)"
      "console ?w1 = console w @ [FailedToSyncOperation operation err]" by blast
  from Cons.IH[OF one(1)] obtain new
    where new: "queue_of (storageService (drain gw syncQueue ?w1)) = queue_of (storageService ?w1)"
      "console (drain gw syncQueue ?w1) = console ?w1 @ new" "failed_operations new = syncQueue"
    by blast
  have "console (drain gw (operation # syncQueue) w)
      = console w @ (FailedToSyncOperation operation err # new)" using one(3) new(2) by simp
  moreover have "failed_operations (FailedToSyncOperation operation err # new)
      = operation # syncQueue" using new(3) by simp
  ultimately show ?case using one(2) new(1) by (metis drain_Cons)
qed




section \<open>One pass at a time\<close>

lemma on_storage_flags:
  "isOnline (snd (on_storage f w)) = isOnline w \<and>
   syncInProgress (snd (on_storage f w)) = syncInProgress w \<and>
   this_userId (snd (on_storage f w)) = this_userId w"
  by (cases "f (storageService w)") (simp add: on_storage_def)

lemma drain_flags:
  "isOnline (drain gw syncQueue w) = isOnline w \<and>
   syncInProgress (drain gw syncQueue w) = syncInProgress w"
  by (induction syncQueue arbitrary: w) (simp_all add: syncOne_flags)

text \<open>Handlers that leave alone a world in which a pass is in progress and the
  synchroniser is online do not show in a turn of the loop, in the loop, in the pass.\<close>

lemma syncOne_at_alone:
  assumes quiet: "\<And>w. syncInProgress w \<Longrightarrow> isOnline w \<Longrightarrow> others w = w"
    and "syncInProgress w" "isOnline w"
  shows "syncOne_at others gw operation w = syncOne gw operation w"
proof -
  obtain r w1 where p: "processOperation gw operation w = (r, w1)"
    by (cases "processOperation gw operation w")
  with processOperation_frame[of w gw operation] assms(2,3)
  have f1: "syncInProgress w1" "isOnline w1" by (simp_all add: pass_frame_def)
  then have o1: "others w1 = w1" by (rule quiet)
  let ?rm = "on_storage (removeFromSyncQueue (item_id operation)) w1"
  obtain r2 w2 where rm: "?rm = (r2, w2)" by (cases ?rm)
  with on_storage_flags[of "removeFromSyncQueue (item_id operation)" w1] f1
  have "syncInProgress w2" "isOnline w2" by simp_all
  then have o2: "others w2 = w2" by (rule quiet)
  from p rm o1 o2 show ?thesis
    by (cases r; cases r2) (simp_all add: syncOne_at_def syncOne_unfold)
qed

lemma drain_at_alone:
  assumes quiet: "\<And>w. syncInProgress w \<Longrightarrow> isOnline w \<Longrightarrow> others w = w"
    and "syncInProgress w" "isOnline w"
  shows "drain_at others gw syncQueue w = drain gw syncQueue w"
  using assms(2,3)
proof (induction syncQueue arbitrary: w)
  case Nil
  show ?case by simp
next
  case (Cons operation syncQueue)
  from Cons.prems have 1: "syncOne_at others gw operation w = syncOne gw operation w"
    by (intro syncOne_at_alone quiet)
  from Cons.prems syncOne_flags[of gw operation w]
  have "syncInProgress (syncOne gw operation w)" "isOnline (syncOne gw operation w)" by simp_all
  from Cons.IH[OF this] 1 show ?case by simp
qed

lemma syncPendingChanges_at_alone:
  assumes quiet: "\<And>w. syncInProgress w \<Longrightarrow> isOnline w \<Longrightarrow> others w = w"
  shows "syncPendingChanges_at others gw w = syncPendingChanges gw w"
proof (cases "\<not> isOnline w \<or> syncInProgress w \<or> \<not> truthy (this_userId w)")
  case True
  then show ?thesis by (simp add: syncPendingChanges_at_def syncPendingChanges_unfold)
next
  case False
  let ?w0 = "w\<lparr>syncInProgress := True\<rparr>"
  obtain r w1 where g: "on_storage getSyncQueue ?w0 = (r, w1)"
    by (cases "on_storage getSyncQueue ?w0")
  with on_storage_flags[of getSyncQueue ?w0] False
  have f1: "syncInProgress w1" "isOnline w1" by simp_all
  then have o1: "others w1 = w1" by (rule quiet)
  show ?thesis
  proof (cases r)
    case (Inl err)
    with False g o1 show ?thesis
      by (simp add: syncPendingChanges_at_def syncPendingChanges_unfold)
  next
    case (Inr syncQueue)
    from f1 have d: "drain_at others gw syncQueue w1 = drain gw syncQueue w1"
      by (intro drain_at_alone quiet)
    from f1 drain_flags[of gw syncQueue w1] syncFromServer_frame[of gw "drain gw syncQueue w1"]
    have "syncInProgress (syncFromServer gw (drain gw syncQueue w1))"
      "isOnline (syncFromServer gw (drain gw syncQueue w1))" by simp_all
    then have "others (syncFromServer gw (drain gw syncQueue w1))
        = syncFromServer gw (drain gw syncQueue w1)" by (rule quiet)
    with False g Inr o1 d show ?thesis
      by (simp add: syncPendingChanges_at_def syncPendingChanges_unfold)
  qed
qed

lemma triggers_quiet:
  assumes "syncInProgress w" "isOnline w"
  shows "syncPendingChanges gw w = w" "timer_tick gw w = w" "online_event gw w = w"
  using assms by (simp_all add: syncPendingChanges_unfold timer_tick_def online_event_def)

text \<open>
  C7. A call of \<^verbatim>\<open>syncPendingChanges\<close> while a pass is in progress, while offline or with
  no user id returns the world as it is: store, queue, server and flags. A call made
  while no pass is in progress leaves \<^verbatim>\<open>syncInProgress\<close> false when it returns, whatever
  the gateway answered; the timer's own guard changes nothing to that. And a pass
  keeps every other pass out: the loop and the reconciliation never lower the flag the
  pass has raised, so a pass in which a second call of the method, a tick of the timer
  or an \<^verbatim>\<open>online\<close> event comes in at every point where it awaits ends in the same world
  as the pass run alone.
\<close>

theorem syncPendingChanges_exclusive:
  "(\<not> isOnline w \<or> syncInProgress w \<or> \<not> truthy (this_userId w)
      \<longrightarrow> syncPendingChanges gw w = w) \<and>
   (\<not> syncInProgress w \<longrightarrow> \<not> syncInProgress (syncPendingChanges gw w)) \<and>
   timer_tick gw w = syncPendingChanges gw w \<and>
   syncInProgress (drain gw syncQueue w) = syncInProgress w \<and>
   syncInProgress (syncFromServer gw w) = syncInProgress w \<and>
   syncPendingChanges_at (syncPendingChanges gw') gw w = syncPendingChanges gw w \<and>
   syncPendingChanges_at (timer_tick gw') gw w = syncPendingChanges gw w \<and>
   syncPendingChanges_at (online_event gw') gw w = syncPendingChanges gw w"
proof -
  have 1: "\<not> isOnline w \<or> syncInProgress w \<or> \<not> truthy (this_userId w)
      \<longrightarrow> syncPendingChanges gw w = w"
    by (simp add: syncPendingChanges_unfold)
  have 2: "\<not> syncInProgress w \<longrightarrow> \<not> syncInProgress (syncPendingChanges gw w)"
    by (simp add: syncPendingChanges_unfold Let_def)
  have 3: "timer_tick gw w = syncPendingChanges gw w"
    by (simp add: timer_tick_def syncPendingChanges_unfold)
  have 4: "syncPendingChanges_at (syncPendingChanges gw') gw w = syncPendingChanges gw w"
    by (rule syncPendingChanges_at_alone) (rule triggers_quiet)
  have 5: "syncPendingChanges_at (timer_tick gw') gw w = syncPendingChanges gw w"
    by (rule syncPendingChanges_at_alone) (rule triggers_quiet)
  have 6: "syncPendingChanges_at (online_event gw') gw w = syncPendingChanges gw w"
    by (rule syncPendingChanges_at_alone) (rule triggers_quiet)
  from 1 2 3 4 5 6 drain_flags[of gw syncQueue w] syncFromServer_frame[of gw w]
  show ?thesis by blast
qed

theorem syncPendingChanges_exclusive_witness:
  "syncInProgress (world_two_deletes\<lparr>syncInProgress := True\<rparr>) \<and>
   syncPendingChanges taskService (world_two_deletes\<lparr>syncInProgress := True\<rparr>)
     = world_two_deletes\<lparr>syncInProgress := True\<rparr> \<and>
   syncInProgress (syncPendingChanges taskService world_two_deletes) = False \<and>
   syncPendingChanges_at (syncPendingChanges taskService) taskService world_two_deletes
     = syncPendingChanges taskService world_two_deletes \<and>
   requests (remote
       (syncPendingChanges_at (syncPendingChanges taskService) taskService world_two_deletes))
     = [DELETE_task ''64b000000000000000000001'', DELETE_task ''64b000000000000000000002'',
        GET_tasks]"
proof -
  have a: "syncInProgress (world_two_deletes\<lparr>syncInProgress := True\<rparr>)" by simp
  have b: "\<not> syncInProgress world_two_deletes"
    by (simp add: world_two_deletes_def world0_def)
  have r: "requests (remote (syncPendingChanges taskService world_two_deletes))
     = [DELETE_task ''64b000000000000000000001'', DELETE_task ''64b000000000000000000002'',
        GET_tasks]"
    by code_simp
  from syncPendingChanges_exclusive
         [of "world_two_deletes\<lparr>syncInProgress := True\<rparr>" taskService "[]" taskService]
    syncPendingChanges_exclusive [of world_two_deletes taskService "[]" taskService] a b r
  show ?thesis by simp
qed

text \<open>It is the flag that keeps the second pass out. A handler that lowers the flag
  before it calls the method does start a pass inside the pass: the one queued delete,
  which the pass run alone sends once, goes out four times.\<close>

lemma pass_inside_pass_without_flag:
  "requests (remote (syncPendingChanges taskService world_delete))
     = [DELETE_task ''64b000000000000000000001'', GET_tasks] \<and>
   requests (remote
     (syncPendingChanges_at (\<lambda>w. (syncPendingChanges taskService (w\<lparr>syncInProgress := False\<rparr>))
                                   \<lparr>syncInProgress := True\<rparr>)
        taskService world_delete))
   = [DELETE_task ''64b000000000000000000001'', GET_tasks,
      DELETE_task ''64b000000000000000000001'', DELETE_task ''64b000000000000000000001'',
      GET_tasks, GET_tasks, DELETE_task ''64b000000000000000000001'', GET_tasks]"
  by code_simp

section \<open>Create and delete while offline\<close>

lemma addToSyncQueue_on_idb:
  "on_idb s \<Longrightarrow>
   addToSyncQueue operation e s =
     (case os_add (syncItem_id operation e) (make_syncItem operation e) (idb_queue s) of
        Inl err \<Rightarrow> (Inl err, s)
      | Inr q \<Rightarrow> (Inr (), s\<lparr>idb_queue := q\<rparr>))"
  by (simp add: addToSyncQueue_def on_idb_def transaction_open make_syncItem_def)

lemma deleteTask_idb:
  "on_idb s \<Longrightarrow> deleteTask i uid s = (Inr (), s\<lparr>idb_tasks := os_delete i (idb_tasks s)\<rparr>)"
  by (simp add: deleteTask_def on_idb_def transaction_open)

lemma item_id_make_syncItem: "item_id (make_syncItem operation e) = syncItem_id operation e"
  by (simp add: make_syncItem_def)

lemma create_key_less_delete_key:
  "item_id (queued_create taskData e e') < item_id (queued_delete e e'')"
  by (simp add: queued_create_def queued_delete_def make_syncItem_def syncItem_id_def)

lemma create_then_delete_storage:
  assumes "on_idb (storageService w)" "idb_queue (storageService w) = []"
  shows "create_then_delete taskData e e' e'' w =
     w\<lparr>storageService := (storageService w)
        \<lparr>idb_tasks := os_delete (offline_id e)
            (os_put (offline_id e)
               \<lparr>task_id = Id (offline_id e), userId = this_userId w, createdAt = Some (now e),
                  updatedAt = Some (now e), isOffline = True, props = taskData\<rparr>
               (idb_tasks (storageService w))),
         idb_queue := [(item_id (queued_create taskData e e'), queued_create taskData e e'),
                       (item_id (queued_delete e e''), queued_delete e e'')]\<rparr>\<rparr>"
proof -
  let ?s = "storageService w"
  let ?t = "\<lparr>task_id = Id (offline_id e), userId = this_userId w, createdAt = Some (now e),
                  updatedAt = Some (now e), isOffline = True, props = taskData\<rparr>"
  let ?c = "queued_create taskData e e'"
  let ?d = "queued_delete e e''"
  let ?s1 = "?s\<lparr>idb_tasks := os_put (offline_id e) ?t (idb_tasks ?s)\<rparr>"
  let ?s2 = "?s1\<lparr>idb_queue := [(item_id ?c, ?c)]\<rparr>"
  have i: "\<not> useLocalStorage ?s" "db_open ?s" using assms(1) by (simp_all add: on_idb_def)
  have 1: "saveTask ?t ?s = (Inr (), ?s1)" using i by (simp add: saveTask_idb)
  have i1: "on_idb ?s1" using assms(1) by (simp add: on_idb_def)
  have k: "item_id ?c = syncItem_id \<lparr>op_type = CREATE, taskId = offline_id e, data = taskData\<rparr> e'"
    by (simp add: queued_create_def make_syncItem_def)
  have 2: "addToSyncQueue \<lparr>op_type = CREATE, taskId = offline_id e, data = taskData\<rparr> e' ?s1
             = (Inr (), ?s2)"
    using assms(2) i
    by (simp add: addToSyncQueue_on_idb on_idb_def os_add_def queued_create_def
        item_id_make_syncItem)
  have c: "createOfflineTask taskData e e' w = (Inr ?t, w\<lparr>storageService := ?s2\<rparr>)"
    using 1 2 by (simp add: createOfflineTask_def on_storage_def Let_def)
  let ?s3 = "?s2\<lparr>idb_tasks := os_delete (offline_id e) (idb_tasks ?s2)\<rparr>"
  have i2: "on_idb ?s2" using assms(1) by (simp add: on_idb_def)
  have 3: "deleteTask (offline_id e) (this_userId w) ?s2 = (Inr (), ?s3)"
    using i by (simp add: deleteTask_idb on_idb_def)
  have i3: "on_idb ?s3" using assms(1) by (simp add: on_idb_def)
  have kd: "item_id ?d = syncItem_id \<lparr>op_type = DELETE, taskId = offline_id e, data = []\<rparr> e''"
    by (simp add: queued_delete_def make_syncItem_def)
  from create_key_less_delete_key[of taskData e e' e'']
  have ne: "item_id ?d \<noteq> item_id ?c" "\<not> item_id ?d < item_id ?c" by auto
  have 4: "addToSyncQueue \<lparr>op_type = DELETE, taskId = offline_id e, data = []\<rparr> e'' ?s3
             = (Inr (), ?s3\<lparr>idb_queue := [(item_id ?c, ?c), (item_id ?d, ?d)]\<rparr>)"
    using ne i
    by (simp add: addToSyncQueue_on_idb on_idb_def os_add_def queued_create_def queued_delete_def
        item_id_make_syncItem)
  show ?thesis
    using c 3 4 by (simp add: create_then_delete_def deleteOfflineTask_def on_storage_def)
qed

lemma syncOne_remote: "remote (syncOne gw operation w) = remote (snd (processOperation gw operation w))"
proof (cases "processOperation gw operation w")
  case (Pair r w1)
  show ?thesis
  proof (cases r)
    case (Inl err)
    with Pair show ?thesis by (simp add: syncOne_unfold log_def)
  next
    case (Inr u)
    obtain r2 w2 where rm: "on_storage (removeFromSyncQueue (item_id operation)) w1 = (r2, w2)"
      by (cases "on_storage (removeFromSyncQueue (item_id operation)) w1")
    with on_storage_remote[of "removeFromSyncQueue (item_id operation)" w1]
    have "remote w2 = remote w1" by simp
    with Pair Inr rm show ?thesis by (cases r2) (simp_all add: syncOne_unfold log_def)
  qed
qed

lemma processOperation_create_remote:
  assumes "op_type operation = CREATE"
  shows "remote (snd (processOperation gw operation w))
           = snd (ts_createTask gw (data operation) (remote w))"
proof -
  let ?c = "on_remote (ts_createTask gw (data operation)) w"
  obtain r w1 where c: "?c = (r, w1)" by (cases ?c)
  with on_remote_frame[of w "ts_createTask gw (data operation)"]
  have r1: "remote w1 = snd (ts_createTask gw (data operation) (remote w))" by simp
  show ?thesis
  proof (cases r)
    case (Inl err)
    with assms c r1 show ?thesis by (simp add: processOperation_def)
  next
    case (Inr newTask)
    let ?d = "on_storage (deleteTask (taskId operation) (this_userId w1)) w1"
    obtain r2 w2 where d: "?d = (r2, w2)" by (cases ?d)
    with on_storage_remote[of "deleteTask (taskId operation) (this_userId w1)" w1]
    have r2: "remote w2 = remote w1" by simp
    show ?thesis
    proof (cases r2)
      case (Inl err)
      with assms c Inr d r1 r2 show ?thesis by (simp add: processOperation_def)
    next
      case ok: (Inr u)
      with assms c Inr d r1 r2 on_storage_remote[of "saveTask newTask" w2] show ?thesis
        by (simp add: processOperation_def)
    qed
  qed
qed

lemma processOperation_offline_delete:
  "op_type operation = DELETE \<Longrightarrow> startsWith (taskId operation) ''offline_'' \<Longrightarrow>
   processOperation gw operation w = (Inr (), w)"
  by (simp add: processOperation_def)

lemma syncPendingChanges_on_idb:
  assumes "on_idb (storageService w)" "isOnline w" "\<not> syncInProgress w" "truthy (this_userId w)"
  shows "syncPendingChanges gw w =
     (syncFromServer gw (drain gw (os_getAll (idb_queue (storageService w)))
         (w\<lparr>syncInProgress := True\<rparr>)))\<lparr>syncInProgress := False\<rparr>"
  using assms
  by (simp add: syncPendingChanges_unfold on_storage_def getSyncQueue_def on_idb_def
      transaction_open)

lemma os_delete_key: "k \<notin> fst ` set (os_delete k xs)"
  by (auto simp: os_delete_def)

lemma startsWith_offline_id: "startsWith (offline_id e) ''offline_''"
  by (simp add: startsWith_def offline_id_def)


lemma queued_items:
  "op_type (queued_create taskData e e') = CREATE" "data (queued_create taskData e e') = taskData"
  "op_type (queued_delete e e'') = DELETE" "taskId (queued_delete e e'') = offline_id e"
  by (simp_all add: queued_create_def queued_delete_def make_syncItem_def)

lemma pass_after_create_then_delete:
  assumes "on_idb (storageService w)" "idb_queue (storageService w) = []"
    "\<not> syncInProgress w" "truthy (this_userId w)"
  shows "remote (online_event gw (create_then_delete taskData e e' e'' w))
           = snd (ts_getTasks gw (snd (ts_createTask gw taskData (remote w))))"
    and "item_id (queued_delete e e'')
           \<notin> fst ` set (idb_queue (storageService
                 (online_event gw (create_then_delete taskData e e' e'' w))))"
proof -
  let ?c = "queued_create taskData e e'"
  let ?d = "queued_delete e e''"
  let ?W = "create_then_delete taskData e e' e'' w"
  let ?X = "?W\<lparr>isOnline := True\<rparr>"
  let ?Z = "?X\<lparr>syncInProgress := True\<rparr>"
  note W = create_then_delete_storage[OF assms(1,2), of taskData e e' e'']
  have i: "on_idb (storageService ?X)" using assms(1) by (simp add: W on_idb_def)
  have q: "os_getAll (idb_queue (storageService ?X)) = [?c, ?d]"
    by (simp add: W os_getAll_def)
  have r0: "remote ?Z = remote w" by (simp add: W)
  have "syncPendingChanges gw ?X
      = (syncFromServer gw (drain gw (os_getAll (idb_queue (storageService ?X))) ?Z))
          \<lparr>syncInProgress := False\<rparr>"
    using i assms(3,4) by (intro syncPendingChanges_on_idb) (simp_all add: W)
  then have pass: "online_event gw ?W
      = (syncFromServer gw (syncOne gw ?d (syncOne gw ?c ?Z)))\<lparr>syncInProgress := False\<rparr>"
    using q by (simp add: online_event_def)
  let ?Y1 = "syncOne gw ?c ?Z"
  let ?Y2 = "syncOne gw ?d ?Y1"
  have i0: "on_idb (storageService ?Z)" using i by simp
  have r1: "remote ?Y1 = snd (ts_createTask gw taskData (remote w))"
    using processOperation_create_remote[of ?c gw ?Z] r0
    by (simp add: syncOne_remote queued_items)
  have i1: "on_idb (storageService ?Y1)" using syncOne_on_idb[OF i0, of gw ?c] by simp
  have p2: "processOperation gw ?d ?Y1 = (Inr (), ?Y1)"
    by (rule processOperation_offline_delete) (simp_all add: queued_items startsWith_offline_id)
  then have f2: "fst (processOperation gw ?d ?Y1) = Inr ()" by simp
  have r2: "remote ?Y2 = remote ?Y1" by (simp add: syncOne_remote p2)
  have q2: "idb_queue (storageService ?Y2) = os_delete (item_id ?d) (idb_queue (storageService ?Y1))"
    using f2 i1 by (rule syncOne_done(1))
  from syncFromServer_frame[of gw ?Y2] pass r1 r2
  show "remote (online_event gw ?W) = snd (ts_getTasks gw (snd (ts_createTask gw taskData (remote w))))"
    by simp
  from syncFromServer_frame[of gw ?Y2] pass
  have "idb_queue (storageService (online_event gw ?W)) = idb_queue (storageService ?Y2)"
    by (simp add: queue_of_def)
  with q2 os_delete_key[of "item_id ?d" "idb_queue (storageService ?Y1)"]
  show "item_id ?d \<notin> fst ` set (idb_queue (storageService (online_event gw ?W)))"
    by simp
qed

lemma create_then_delete_fallback:
  assumes "useLocalStorage (storageService w)"
  shows "fst (createOfflineTask taskData e e' w) = Inl TypeError"
    and "Id (offline_id e) \<notin> task_id ` set (local_tasks (this_userId w)
            (storageService (create_then_delete taskData e e' e'' w)))"
    and "queue_of (storageService (create_then_delete taskData e e' e'' w))
           = queue_of (storageService w)"
    and "useLocalStorage (storageService (create_then_delete taskData e e' e'' w))"
    and "remote (create_then_delete taskData e e' e'' w) = remote w"
    and "this_userId (create_then_delete taskData e e' e'' w) = this_userId w"
    and "syncInProgress (create_then_delete taskData e e' e'' w) = syncInProgress w"
proof -
  let ?s = "storageService w"
  let ?t = "\<lparr>task_id = Id (offline_id e), userId = this_userId w, createdAt = Some (now e),
                  updatedAt = Some (now e), isOffline = True, props = taskData\<rparr>"
  let ?k = "template (this_userId w)"
  let ?s1 = "?s\<lparr>ls_tasks := ls_set ?k (upsert ?t (local_tasks (this_userId w) ?s)) (ls_tasks ?s)\<rparr>"
  have 1: "saveTask ?t ?s = (Inr (), ?s1)" using assms by (simp add: saveTask_fallback)
  have u1: "useLocalStorage ?s1" using assms by simp
  have c: "createOfflineTask taskData e e' w = (Inl TypeError, w\<lparr>storageService := ?s1\<rparr>)"
    using 1 u1 by (simp add: createOfflineTask_def on_storage_def Let_def addToSyncQueue_fallback)
  let ?L = "filter (\<lambda>t. task_id t \<noteq> Id (offline_id e)) (local_tasks (this_userId w) ?s1)"
  let ?s2 = "?s1\<lparr>ls_tasks := ls_set ?k ?L (ls_tasks ?s1)\<rparr>"
  have 2: "deleteTask (offline_id e) (this_userId w) ?s1 = (Inr (), ?s2)"
    using u1 by (simp add: deleteTask_def getTasks_ready)
  have u2: "useLocalStorage ?s2" using assms by simp
  have W: "create_then_delete taskData e e' e'' w = w\<lparr>storageService := ?s2\<rparr>"
    using c 2 u2
    by (simp add: create_then_delete_def deleteOfflineTask_def on_storage_def
        addToSyncQueue_fallback)
  show "fst (createOfflineTask taskData e e' w) = Inl TypeError" using c by simp
  have "local_tasks (this_userId w) ?s2 = ?L" using assms by (simp add: local_tasks_def ls_get_set)
  then show "Id (offline_id e) \<notin> task_id ` set (local_tasks (this_userId w)
            (storageService (create_then_delete taskData e e' e'' w)))"
    by (auto simp: W)
  show "queue_of (storageService (create_then_delete taskData e e' e'' w)) = queue_of ?s"
    by (simp add: W queue_of_def)
  show "useLocalStorage (storageService (create_then_delete taskData e e' e'' w))"
    using assms by (simp add: W)
  show "remote (create_then_delete taskData e e' e'' w) = remote w" by (simp add: W)
  show "this_userId (create_then_delete taskData e e' e'' w) = this_userId w" by (simp add: W)
  show "syncInProgress (create_then_delete taskData e e' e'' w) = syncInProgress w"
    by (simp add: W)
qed

lemma pass_fallback_empty_queue:
  assumes "useLocalStorage (storageService w)" "ls_queue (storageService w) = None"
    "isOnline w" "\<not> syncInProgress w" "truthy (this_userId w)"
  shows "remote (syncPendingChanges gw w) = snd (ts_getTasks gw (remote w))"
proof -
  have "on_storage getSyncQueue (w\<lparr>syncInProgress := True\<rparr>)
      = (Inr [], w\<lparr>syncInProgress := True\<rparr>)"
    using assms(1,2) by (simp add: on_storage_def getSyncQueue_def)
  with assms(3,4,5) syncFromServer_frame[of gw "w\<lparr>syncInProgress := True\<rparr>"]
  show ?thesis by (simp add: syncPendingChanges_unfold)
qed

section \<open>A task created and deleted before any pass\<close>




section \<open>Reconciliation with the server\<close>

text \<open>Claim C4. With the gateway of the repository the reconciliation never merges:
  \<^verbatim>\<open>taskService.getTasks()\<close> resolves to the envelope \<^verbatim>\<open>{success, tasks, pagination}\<close> of
  the route, which is not an array, so \<^verbatim>\<open>serverTasks.filter\<close> throws a
  \<^verbatim>\<open>TypeError\<close> that the \<^verbatim>\<open>catch\<close> of \<^verbatim>\<open>syncFromServer\<close> logs. In the world
  where the server holds a later version of a local task and a task absent locally, the
  request is sent and answered, the local copy is not overwritten and the absent task is
  not inserted.\<close>

theorem syncFromServer_does_not_merge_envelope:
  "map (\<lambda>d. (doc_id d, doc_updatedAt d)) (collection (server (remote world_behind)))
     = [(''64b000000000000000000001'', 200), (''64b000000000000000000002'', 60)] \<and>
   map (\<lambda>t. (task_id t, updatedAt t)) (stored_tasks (storageService world_behind))
     = [(Id ''64b000000000000000000001'', Some 100)] \<and>
   (case fst (ts_getTasks taskService (remote world_behind)) of
      Inr (Object response) \<Rightarrow> task_id response = Undefined
    | Inr (Array serverTasks) \<Rightarrow> False
    | Inl err \<Rightarrow> False) \<and>
   requests (remote (syncFromServer taskService world_behind)) = [GET_tasks] \<and>
   console (syncFromServer taskService world_behind) = [FailedToSyncFromServer TypeError] \<and>
   storageService (syncFromServer taskService world_behind) = storageService world_behind \<and>
   idb_tasks (storageService (online_event taskService world_behind))
     = [(''64b000000000000000000001'', task_a)]"
  by code_simp

section \<open>Replay of one mutation\<close>

lemma getOfflineTasks_idb:
  "on_idb (storageService w) \<Longrightarrow> truthy (this_userId w) \<Longrightarrow>
   getOfflineTasks w = (Inr (local_tasks (this_userId w) (storageService w)), w)"
  by (simp add: getOfflineTasks_def on_storage_def getTasks_ready on_idb_def)

lemma pass_one_item:
  assumes "on_idb (storageService w)" "idb_queue (storageService w) = [(k, item)]"
    "\<not> syncInProgress w" "truthy (this_userId w)"
  shows "remote (online_event gw w)
           = snd (ts_getTasks gw (remote (snd (processOperation gw item
                (w\<lparr>isOnline := True, syncInProgress := True\<rparr>)))))"
proof -
  let ?X = "w\<lparr>isOnline := True\<rparr>"
  have "syncPendingChanges gw ?X
      = (syncFromServer gw (drain gw (os_getAll (idb_queue (storageService ?X)))
            (?X\<lparr>syncInProgress := True\<rparr>)))\<lparr>syncInProgress := False\<rparr>"
    using assms by (intro syncPendingChanges_on_idb) simp_all
  then have "online_event gw w
      = (syncFromServer gw (syncOne gw item (w\<lparr>isOnline := True, syncInProgress := True\<rparr>)))
          \<lparr>syncInProgress := False\<rparr>"
    using assms(2) by (simp add: online_event_def os_getAll_def)
  with syncFromServer_frame[of gw "syncOne gw item (w\<lparr>isOnline := True, syncInProgress := True\<rparr>)"]
  show ?thesis by (simp add: syncOne_remote)
qed

lemma pass_no_item:
  assumes "on_idb (storageService w)" "idb_queue (storageService w) = []"
    "\<not> syncInProgress w" "truthy (this_userId w)"
  shows "remote (online_event gw w) = snd (ts_getTasks gw (remote w))"
proof -
  let ?X = "w\<lparr>isOnline := True\<rparr>"
  have "syncPendingChanges gw ?X
      = (syncFromServer gw (drain gw (os_getAll (idb_queue (storageService ?X)))
            (?X\<lparr>syncInProgress := True\<rparr>)))\<lparr>syncInProgress := False\<rparr>"
    using assms by (intro syncPendingChanges_on_idb) simp_all
  then have "online_event gw w
      = (syncFromServer gw (w\<lparr>isOnline := True, syncInProgress := True\<rparr>))
          \<lparr>syncInProgress := False\<rparr>"
    using assms(2) by (simp add: online_event_def os_getAll_def)
  with syncFromServer_frame[of gw "w\<lparr>isOnline := True, syncInProgress := True\<rparr>"]
  show ?thesis by simp
qed

lemma createOfflineTask_idb:
  assumes "on_idb (storageService w)" "idb_queue (storageService w) = []"
  obtains S where "snd (createOfflineTask taskData e e' w) = w\<lparr>storageService := S\<rparr>"
    "on_idb S" "idb_queue S = [(item_id (queued_create taskData e e'), queued_create taskData e e')]"
proof -
  let ?s = "storageService w"
  let ?t = "\<lparr>task_id = Id (offline_id e), userId = this_userId w, createdAt = Some (now e),
                  updatedAt = Some (now e), isOffline = True, props = taskData\<rparr>"
  let ?c = "queued_create taskData e e'"
  let ?s1 = "?s\<lparr>idb_tasks := os_put (offline_id e) ?t (idb_tasks ?s)\<rparr>"
  let ?s2 = "?s1\<lparr>idb_queue := [(item_id ?c, ?c)]\<rparr>"
  have i: "\<not> useLocalStorage ?s" "db_open ?s" using assms(1) by (simp_all add: on_idb_def)
  have 1: "saveTask ?t ?s = (Inr (), ?s1)" using i by (simp add: saveTask_idb)
  have 2: "addToSyncQueue \<lparr>op_type = CREATE, taskId = offline_id e, data = taskData\<rparr> e' ?s1
             = (Inr (), ?s2)"
    using assms(2) i
    by (simp add: addToSyncQueue_on_idb on_idb_def os_add_def queued_create_def
        item_id_make_syncItem)
  have c: "snd (createOfflineTask taskData e e' w) = w\<lparr>storageService := ?s2\<rparr>"
    using 1 2 by (simp add: createOfflineTask_def on_storage_def Let_def)
  moreover have "on_idb ?s2" using i by (simp add: on_idb_def)
  moreover have "idb_queue ?s2 = [(item_id ?c, ?c)]" by simp
  ultimately show thesis by (rule that)
qed

lemma deleteOfflineTask_idb:
  assumes "on_idb (storageService w)" "idb_queue (storageService w) = []"
  obtains S where "snd (deleteOfflineTask tid e' w) = w\<lparr>storageService := S\<rparr>"
    "on_idb S"
    "idb_queue S = [(syncItem_id \<lparr>op_type = DELETE, taskId = tid, data = []\<rparr> e',
                     make_syncItem \<lparr>op_type = DELETE, taskId = tid, data = []\<rparr> e')]"
proof -
  let ?s = "storageService w"
  let ?o = "\<lparr>op_type = DELETE, taskId = tid, data = []\<rparr>"
  let ?s1 = "?s\<lparr>idb_tasks := os_delete tid (idb_tasks ?s)\<rparr>"
  let ?s2 = "?s1\<lparr>idb_queue := [(syncItem_id ?o e', make_syncItem ?o e')]\<rparr>"
  have i: "\<not> useLocalStorage ?s" "db_open ?s" using assms(1) by (simp_all add: on_idb_def)
  have 1: "deleteTask tid (this_userId w) ?s = (Inr (), ?s1)"
    using assms(1) by (simp add: deleteTask_idb)
  have 2: "addToSyncQueue ?o e' ?s1 = (Inr (), ?s2)"
    using assms(2) i by (simp add: addToSyncQueue_on_idb on_idb_def os_add_def)
  have "snd (deleteOfflineTask tid e' w) = w\<lparr>storageService := ?s2\<rparr>"
    using 1 2 by (simp add: deleteOfflineTask_def on_storage_def)
  moreover have "on_idb ?s2" using i by (simp add: on_idb_def)
  moreover have "idb_queue ?s2 = [(syncItem_id ?o e', make_syncItem ?o e')]" by simp
  ultimately show thesis by (rule that)
qed

lemma find_by_id:
  "Id tid \<in> task_id ` set tasks \<Longrightarrow>
   \<exists>t. find (\<lambda>t. task_id t = Id tid) tasks = Some t \<and> t \<in> set tasks \<and> task_id t = Id tid"
  by (induction tasks) auto

lemma find_by_id_None:
  "Id tid \<notin> task_id ` set tasks \<Longrightarrow> find (\<lambda>t. task_id t = Id tid) tasks = None"
  by (induction tasks) auto

lemma local_tasks_idb:
  "on_idb s \<Longrightarrow> truthy uid \<Longrightarrow>
   local_tasks uid s = filter (\<lambda>t. userId t = uid) (map snd (idb_tasks s))"
  by (cases uid) (simp_all add: local_tasks_def on_idb_def os_getAll_def)

lemma updateOfflineTask_idb_found:
  assumes "on_idb (storageService w)" "idb_queue (storageService w) = []"
    "truthy (this_userId w)"
    "Id tid \<in> task_id ` set (local_tasks (this_userId w) (storageService w))"
  obtains S where "snd (updateOfflineTask tid updates e e' w) = w\<lparr>storageService := S\<rparr>"
    "on_idb S"
    "idb_queue S = [(syncItem_id \<lparr>op_type = UPDATE, taskId = tid, data = updates\<rparr> e',
                     make_syncItem \<lparr>op_type = UPDATE, taskId = tid, data = updates\<rparr> e')]"
    "Id tid \<in> task_id ` set (local_tasks (this_userId w) S)"
proof -
  let ?s = "storageService w"
  let ?uid = "this_userId w"
  let ?o = "\<lparr>op_type = UPDATE, taskId = tid, data = updates\<rparr>"
  from find_by_id[OF assms(4)] obtain t where
    f: "find (\<lambda>t. task_id t = Id tid) (local_tasks ?uid ?s) = Some t"
    and m: "t \<in> set (local_tasks ?uid ?s)" and k: "task_id t = Id tid" by blast
  from m have u: "userId t = ?uid" using assms(1,3) by (simp add: local_tasks_idb)
  let ?t = "t\<lparr>props := spread (props t) updates, updatedAt := Some (now e)\<rparr>"
  let ?s1 = "?s\<lparr>idb_tasks := os_put tid ?t (idb_tasks ?s)\<rparr>"
  let ?s2 = "?s1\<lparr>idb_queue := [(syncItem_id ?o e', make_syncItem ?o e')]\<rparr>"
  have i: "\<not> useLocalStorage ?s" "db_open ?s" using assms(1) by (simp_all add: on_idb_def)
  have 1: "saveTask ?t ?s = (Inr (), ?s1)" using i k by (simp add: saveTask_idb)
  have 2: "addToSyncQueue ?o e' ?s1 = (Inr (), ?s2)"
    using assms(2) i by (simp add: addToSyncQueue_on_idb on_idb_def os_add_def)
  have "snd (updateOfflineTask tid updates e e' w) = w\<lparr>storageService := ?s2\<rparr>"
    using f 1 2 assms(1,3)
    by (simp add: updateOfflineTask_def getOfflineTasks_idb on_storage_def Let_def)
  moreover have i2: "on_idb ?s2" using i by (simp add: on_idb_def)
  moreover have "idb_queue ?s2 = [(syncItem_id ?o e', make_syncItem ?o e')]" by simp
  moreover have "Id tid \<in> task_id ` set (local_tasks ?uid ?s2)"
  proof -
    have "(tid, ?t) \<in> set (idb_tasks ?s2)" by (simp add: os_put_mem)
    then have "?t \<in> snd ` set (idb_tasks ?s2)" by force
    with u have "?t \<in> set (local_tasks ?uid ?s2)"
      using i2 assms(3) by (simp add: local_tasks_idb)
    moreover have "task_id ?t = Id tid" using k by simp
    ultimately show ?thesis by force
  qed
  ultimately show thesis by (rule that)
qed

lemma updateOfflineTask_idb_not_found:
  assumes "on_idb (storageService w)" "truthy (this_userId w)"
    "Id tid \<notin> task_id ` set (local_tasks (this_userId w) (storageService w))"
  shows "snd (updateOfflineTask tid updates e e' w) = w"
  using assms by (simp add: updateOfflineTask_def getOfflineTasks_idb find_by_id_None)

lemma processOperation_delete_remote:
  assumes "op_type operation = DELETE" "\<not> startsWith (taskId operation) ''offline_''"
  shows "remote (snd (processOperation gw operation w))
           = snd (ts_deleteTask gw (taskId operation) (remote w))"
  using assms on_remote_frame[of w "ts_deleteTask gw (taskId operation)"]
  by (simp add: processOperation_def)

lemma processOperation_update_remote:
  assumes "op_type operation = UPDATE" "on_idb (storageService w)" "truthy (this_userId w)"
    "Id (taskId operation) \<in> task_id ` set (local_tasks (this_userId w) (storageService w))"
  shows "remote (snd (processOperation gw operation w))
           = (if startsWith (taskId operation) ''offline_'' then remote w
              else snd (ts_updateTask gw (taskId operation) (data operation) (remote w)))"
proof -
  from find_by_id[OF assms(4)] obtain t where
    f: "find (\<lambda>t. task_id t = Id (taskId operation))
          (local_tasks (this_userId w) (storageService w)) = Some t"
    and k: "task_id t = Id (taskId operation)" by blast
  let ?u = "on_remote (ts_updateTask gw (taskId operation) (data operation)) w"
  obtain r w1 where u: "?u = (r, w1)" by (cases ?u)
  with on_remote_frame[of w "ts_updateTask gw (taskId operation) (data operation)"]
  have r1: "remote w1 = snd (ts_updateTask gw (taskId operation) (data operation) (remote w))"
    by simp
  show ?thesis
  proof (cases r)
    case (Inl err)
    with assms f k u r1 show ?thesis
      by (simp add: processOperation_def getOfflineTasks_idb)
  next
    case (Inr updatedTask)
    with assms f k u r1 on_storage_remote[of "saveTask updatedTask" w1] show ?thesis
      by (simp add: processOperation_def getOfflineTasks_idb)
  qed
qed

lemma getTasks_reads_only: "server (snd (ts_getTasks taskService r)) = server r"
  by (simp add: taskService_def returning_def request_def fetch_def route_get_def
      Let_def split: prod.splits sum.splits list.splits)




end
